theory Spec2Isabelle
  imports Main "HOL-Library.AList"
begin

section \<open>Python strings\<close>

text \<open>
  A Python \<open>str\<close> is modelled as a \<open>string\<close>; every \<open>char\<close> stands for one code point
  in the range 0..255, so \<open>length\<close> counts code points as \<open>len\<close> does. The character
  classes below are the ones \<open>str.isspace\<close>, \<open>str.lower\<close> and the pattern classes
  \<open>\s\<close>, \<open>\w\<close> and \<open>.\<close> of \<open>re\<close> have on that range.
\<close>

definition isspace :: "char \<Rightarrow> bool" where
  "isspace c = (let n = (of_char c :: nat) in
     (9 \<le> n \<and> n \<le> 13) \<or> (28 \<le> n \<and> n \<le> 32) \<or> n = 133 \<or> n = 160)"

definition isword :: "char \<Rightarrow> bool" where
  "isword c = (let n = (of_char c :: nat) in
     (48 \<le> n \<and> n \<le> 57) \<or> (65 \<le> n \<and> n \<le> 90) \<or> n = 95 \<or> (97 \<le> n \<and> n \<le> 122) \<or>
     n = 170 \<or> n = 178 \<or> n = 179 \<or> n = 181 \<or> n = 185 \<or> n = 186 \<or>
     (188 \<le> n \<and> n \<le> 190) \<or> (192 \<le> n \<and> n \<le> 214) \<or> (216 \<le> n \<and> n \<le> 246) \<or>
     (248 \<le> n \<and> n \<le> 255))"

definition lower_chr :: "char \<Rightarrow> char" where
  "lower_chr c = (let n = (of_char c :: nat) in
     if (65 \<le> n \<and> n \<le> 90) \<or> (192 \<le> n \<and> n \<le> 222 \<and> n \<noteq> 215)
     then char_of (n + 32) else c)"

definition lower :: "string \<Rightarrow> string" where
  "lower s = map lower_chr s"

definition strip :: "string \<Rightarrow> string" where
  "strip s = rev (dropWhile isspace (rev (dropWhile isspace s)))"

definition strip_chars :: "string \<Rightarrow> string \<Rightarrow> string" where
  "strip_chars cs s =
     rev (dropWhile (\<lambda>c. c \<in> set cs) (rev (dropWhile (\<lambda>c. c \<in> set cs) s)))"

definition startswith :: "string \<Rightarrow> string \<Rightarrow> bool" where
  "startswith s p = (take (length p) s = p)"

text \<open>\<open>sub in s\<close>.\<close>

definition contains :: "string \<Rightarrow> string \<Rightarrow> bool" where
  "contains s sub = list_ex (\<lambda>i. startswith (drop i s) sub) [0..<Suc (length s)]"

text \<open>\<open>s.split(c)\<close> for a one-character separator: the empty string gives one empty piece.\<close>

fun split_chr :: "char \<Rightarrow> string \<Rightarrow> string list" where
  "split_chr c [] = [[]]"
| "split_chr c (x # xs) =
     (if x = c then [] # split_chr c xs
      else (case split_chr c xs of [] \<Rightarrow> [[x]] | w # ws \<Rightarrow> (x # w) # ws))"

text \<open>\<open>s.split(c, 1)\<close> where \<open>c\<close> occurs in \<open>s\<close>: the text before and after its first occurrence.\<close>

definition split_once :: "char \<Rightarrow> string \<Rightarrow> string \<times> string" where
  "split_once c s = (takeWhile (\<lambda>x. x \<noteq> c) s, drop 1 (dropWhile (\<lambda>x. x \<noteq> c) s))"

section \<open>Regular expressions of \<open>re.match\<close>\<close>

text \<open>
  The pattern of the interpreter is a sequence of character classes, each taken once, or
  repeated greedily (\<open>*\<close>, \<open>+\<close>), some of them capturing. \<open>rmatch\<close> is the backtracking
  matcher of \<open>re.match\<close> on such patterns: it is anchored at the start, tries the longest
  repetition first and gives the captured groups of the first match.
\<close>

datatype quant = Once | Star | Plus

record atom =
  cls :: "char \<Rightarrow> bool"
  rep :: quant
  cap :: bool

function first_match :: "(nat \<Rightarrow> 'a option) \<Rightarrow> nat \<Rightarrow> nat \<Rightarrow> 'a option" where
  "first_match f lo hi =
     (if hi < lo then None
      else (case f hi of
              Some r \<Rightarrow> Some r
            | None \<Rightarrow> if hi = lo then None else first_match f lo (hi - 1)))"
  by pat_completeness auto
termination
  by (relation "measure (\<lambda>(f, lo, hi). hi)") auto

declare first_match.simps [simp del]

primrec rmatch :: "atom list \<Rightarrow> string \<Rightarrow> string list option" where
  "rmatch [] s = Some []"
| "rmatch (a # as) s =
     (case rep a of
        Once \<Rightarrow>
          (case s of
             [] \<Rightarrow> None
           | x # xs \<Rightarrow>
               if cls a x
               then map_option (\<lambda>gs. if cap a then [x] # gs else gs) (rmatch as xs)
               else None)
      | Star \<Rightarrow>
          first_match
            (\<lambda>n. map_option (\<lambda>gs. if cap a then take n s # gs else gs) (rmatch as (drop n s)))
            0 (length (takeWhile (cls a) s))
      | Plus \<Rightarrow>
          first_match
            (\<lambda>n. map_option (\<lambda>gs. if cap a then take n s # gs else gs) (rmatch as (drop n s)))
            1 (length (takeWhile (cls a) s)))"

definition lit :: "char \<Rightarrow> atom" where
  "lit c = \<lparr>cls = (\<lambda>x. x = c), rep = Once, cap = False\<rparr>"

text \<open>A letter of the pattern under \<open>re.IGNORECASE\<close>.\<close>

definition lit_ic :: "char \<Rightarrow> atom" where
  "lit_ic c = \<lparr>cls = (\<lambda>x. lower_chr x = lower_chr c), rep = Once, cap = False\<rparr>"

text \<open>\<^verbatim>\<open>Action:\s*(\w+)\((.*)\)\<close> with \<open>re.IGNORECASE\<close>.\<close>

definition action_re :: "atom list" where
  "action_re =
     map lit_ic ''Action:'' @
     [\<lparr>cls = isspace, rep = Star, cap = False\<rparr>,
      \<lparr>cls = isword, rep = Plus, cap = True\<rparr>,
      lit (CHR ''(''),
      \<lparr>cls = (\<lambda>x. x \<noteq> CHR ''\<newline>''), rep = Star, cap = True\<rparr>,
      lit (CHR '')'')]"

section \<open>JSON values\<close>

text \<open>
  The Python objects \<open>json.loads\<close> builds. A \<open>dict\<close> keeps insertion order and is an
  association list; a \<open>float\<close> is kept as the text it was read from.
\<close>

datatype json =
    JNull
  | JBool bool
  | JInt int
  | JFloat string
  | JString string
  | JArray "json list"
  | JObject "(string \<times> json) list"

type_synonym dict = "(string \<times> json) list"

text \<open>What Python raises: an exception, with the text \<open>str\<close> gives for it.\<close>

datatype exn =
    ValidationError string
  | ValueError string
  | TypeError string
  | RecursionError string
  | OtherException string

fun str_exn :: "exn \<Rightarrow> string" where
  "str_exn (ValidationError m) = m"
| "str_exn (ValueError m) = m"
| "str_exn (TypeError m) = m"
| "str_exn (RecursionError m) = m"
| "str_exn (OtherException m) = m"

text \<open>
  \<open>json.loads\<close> on a \<open>str\<close>: the value, or the text of the \<open>JSONDecodeError\<close> it
  raises, or another exception it raises: a \<open>RecursionError\<close> on brackets nested deeper
  than the interpreter allows, a plain \<open>ValueError\<close> on an integer of more digits than
  the interpreter converts. An \<open>except json.JSONDecodeError\<close> catches the second only.
\<close>

datatype loads_result =
    Loaded json
  | DecodeError string
  | LoadsRaises exn

section \<open>The response interpreter (react_agent.py)\<close>

text \<open>The dictionaries \<open>_parse_llm_response\<close> returns, by their \<open>type\<close> key.\<close>

datatype parsed =
    Thought string
  | Action string json
  | Invalid string
  | FinalAnswer string
  | Text string

text \<open>
  The fallback loop over \<open>args_str.split(',')\<close>: a piece holding \<open>=\<close> stores its key with
  the value read as JSON, or as the stripped and unquoted text when that raises a
  \<open>JSONDecodeError\<close>; any other exception of \<open>json.loads\<close> leaves the loop, uncaught.
\<close>

fun key_value_args :: "(string \<Rightarrow> loads_result) \<Rightarrow> string list \<Rightarrow> dict \<Rightarrow> exn + dict" where
  "key_value_args loads [] args = Inr args"
| "key_value_args loads (arg_pair # rest) args =
     (if CHR ''='' \<in> set arg_pair
      then (let (key, val) = split_once (CHR ''='') arg_pair
            in case loads (strip val) of
                 Loaded v \<Rightarrow> key_value_args loads rest (AList.update (strip key) v args)
               | DecodeError e \<Rightarrow>
                   key_value_args loads rest
                     (AList.update (strip key)
                        (JString (strip_chars [CHR 0x27, CHR 0x22] (strip val))) args)
               | LoadsRaises ex \<Rightarrow> Inl ex)
      else key_value_args loads rest args)"

section \<open>Tools (tools.py)\<close>

text \<open>
  A table (\<open>pandas.DataFrame\<close>) with the text of every cell; \<open>head\<close> and \<open>empty\<close> are
  the library's \<open>DataFrame.head\<close> and \<open>DataFrame.empty\<close>.
\<close>

record frame =
  columns :: "string list"
  rows :: "string list list"

definition head :: "nat \<Rightarrow> frame \<Rightarrow> frame" where
  "head n df = df\<lparr>rows := take n (rows df)\<rparr>"

definition empty :: "frame \<Rightarrow> bool" where
  "empty df = (columns df = [] \<or> rows df = [])"

text \<open>
  What a tool returns: a table, or any other object, which stands here as the text
  \<open>str\<close> gives for it.
\<close>

datatype pyval = DataFrame frame | PyObject string

text \<open>A value between single quotes, as the f-strings of the source write \<open>'{x}'\<close>.\<close>

definition quoted :: "string \<Rightarrow> string" where
  "quoted s = [CHR 0x27] @ s @ [CHR 0x27]"

text \<open>
  \<open>args_schema\<close> is the pydantic model as the function \<open>args_schema(**kwargs).model_dump()\<close>
  computes: the validated arguments, or the exception it raises.
\<close>

record Tool =
  name :: string
  description :: string
  func :: "dict \<Rightarrow> exn + pyval"
  args_schema :: "(dict \<Rightarrow> exn + dict) option"

text \<open>\<open>Tool.run\<close>: a \<open>ValidationError\<close> inside the \<open>try\<close> is raised again as a \<open>ValueError\<close>.\<close>

definition validation_failed :: "Tool \<Rightarrow> string \<Rightarrow> exn" where
  "validation_failed self e =
     ValueError (''Tool '' @ quoted (name self) @ '' argument validation failed: '' @ e)"

definition Tool_run :: "Tool \<Rightarrow> dict \<Rightarrow> exn + pyval" where
  "Tool_run self kwargs =
     (case args_schema self of
        Some schema \<Rightarrow>
          (case schema kwargs of
             Inl (ValidationError e) \<Rightarrow> Inl (validation_failed self e)
           | Inl ex \<Rightarrow> Inl ex
           | Inr validated_args \<Rightarrow>
               (case func self validated_args of
                  Inl (ValidationError e) \<Rightarrow> Inl (validation_failed self e)
                | r \<Rightarrow> r))
      | None \<Rightarrow> func self kwargs)"

section \<open>The reasoning client (llm_interface.py)\<close>

text \<open>The turns of \<open>chat_history\<close>, each a dictionary with a \<open>role\<close> key.\<close>

datatype turn =
    SystemTurn string
  | UserTurn string
  | AssistantTurn string
  | AssistantToolCall string string string
  | ToolTurn string string

fun role :: "turn \<Rightarrow> string" where
  "role (SystemTurn c) = ''system''"
| "role (UserTurn c) = ''user''"
| "role (AssistantTurn c) = ''assistant''"
| "role (AssistantToolCall i n a) = ''assistant''"
| "role (ToolTurn i c) = ''tool''"

record tool_call =
  tc_name :: string
  tc_arguments :: string

text \<open>\<open>choices[0].message\<close> of a response; a key that is absent or \<open>null\<close> is \<open>None\<close>.\<close>

record message =
  tool_calls :: "tool_call list option"
  content :: "string option"

text \<open>
  What happens inside the \<open>try\<close> of \<open>call_llm\<close>: the message of the response, or the
  exception raised by the request, by \<open>raise_for_status\<close>, by \<open>response.json()\<close> or by
  the indexing of the body, as the \<open>except\<close> clauses tell them apart, with \<open>str\<close> of
  the exception (and \<open>response.text\<close> for an HTTP error).
\<close>

datatype http_outcome =
    Reply message
  | HTTPError string string
  | ConnectionError string
  | Timeout string
  | RequestException string
  | JSONDecodeError string
  | UnknownException string

datatype llm_response =
    ToolCalls "tool_call list"
  | TextResponse string
  | EmptyResponse
  | ErrorResponse string

text \<open>
  The library and the world outside the repository: \<open>json.loads\<close>,
  \<open>DataFrame.to_markdown(index=False)\<close>, \<open>str\<close> of a table, and the chat-completions
  endpoint as a function of the transcript posted to it.
\<close>

record env =
  json_loads :: "string \<Rightarrow> loads_result"
  to_markdown :: "frame \<Rightarrow> exn + string"
  df_str :: "frame \<Rightarrow> string"
  chat_completions :: "turn list \<Rightarrow> http_outcome"

definition call_llm :: "env \<Rightarrow> turn list \<Rightarrow> llm_response" where
  "call_llm E messages =
     (case chat_completions E messages of
        Reply message \<Rightarrow>
          (case tool_calls message of
             Some (tc # tcs) \<Rightarrow> ToolCalls (tc # tcs)
           | _ \<Rightarrow>
               (case content message of
                  Some (c # cs) \<Rightarrow> TextResponse (c # cs)
                | _ \<Rightarrow> EmptyResponse))
      | HTTPError http_err txt \<Rightarrow> ErrorResponse (''HTTP Error: '' @ http_err @ '' - '' @ txt)
      | ConnectionError conn_err \<Rightarrow> ErrorResponse (''Connection Error: '' @ conn_err)
      | Timeout timeout_err \<Rightarrow> ErrorResponse (''Timeout Error: '' @ timeout_err)
      | RequestException req_err \<Rightarrow> ErrorResponse (''Request Error: '' @ req_err)
      | JSONDecodeError json_err \<Rightarrow> ErrorResponse (''JSON Decode Error: '' @ json_err)
      | UnknownException e \<Rightarrow> ErrorResponse (''Unknown Error: '' @ e))"

section \<open>The agent (react_agent.py)\<close>

text \<open>
  \<open>prompts.yaml\<close> as \<open>_load_prompts\<close> returns it: \<open>system_message_template\<close> is the
  template as the function \<open>str.format\<close> computes from it, of \<open>tool_descriptions\<close> and
  \<open>initial_db_info\<close>.
\<close>

record prompts =
  system_message_template :: "string \<Rightarrow> string \<Rightarrow> string"
  initial_user_query_for_schema :: string

text \<open>
  \<open>tools\<close> is a \<open>dict\<close> from names to tools, in insertion order. The \<open>llm_client\<close> of
  the agent is the client of the endpoint \<open>chat_completions\<close> of the world.
\<close>

record ReActAgent =
  tools :: "(string \<times> Tool) list"
  chat_history :: "turn list"
  agent_prompts :: prompts

definition append_turn :: "turn \<Rightarrow> ReActAgent \<Rightarrow> ReActAgent" where
  "append_turn t self = self\<lparr>chat_history := chat_history self @ [t]\<rparr>"

text \<open>
  \<open>_parse_llm_response(self, response_content)\<close>, as a function of the agent that gives
  the dictionary returned, or the exception that leaves the method, and the agent after
  the call. The slices \<open>response_content[len("thought:"):]\<close> and
  \<open>response_content[len("final answer:"):]\<close> are taken from the response as received,
  not from its stripped form.
\<close>

definition parse_llm_response :: "env \<Rightarrow> ReActAgent \<Rightarrow> string \<Rightarrow> (exn + parsed) \<times> ReActAgent" where
  "parse_llm_response E self response_content =
     (let content_lower = lower (strip response_content)
      in if startswith content_lower ''thought:''
         then (Inr (Thought (strip (drop (length ''thought:'') response_content))), self)
         else if startswith content_lower ''action:''
         then (case rmatch action_re response_content of
                 Some [tool_name, args_str] \<Rightarrow>
                   (case json_loads E (''{'' @ args_str @ ''}'') of
                      Loaded args \<Rightarrow> (Inr (Action tool_name args), self)
                    | DecodeError e \<Rightarrow>
                        (case key_value_args (json_loads E) (split_chr (CHR '','') args_str) [] of
                           Inr args \<Rightarrow> (Inr (Action tool_name (JObject args)), self)
                         | Inl ex \<Rightarrow> (Inl ex, self))
                    | LoadsRaises ex \<Rightarrow> (Inl ex, self))
               | _ \<Rightarrow> (Inr (Invalid (''Invalid Action format: '' @ response_content)), self))
         else if startswith content_lower ''final answer:''
         then (Inr (FinalAnswer (strip (drop (length ''final answer:'') response_content))), self)
         else (Inr (Text (strip response_content)), self))"

text \<open>\<open>"\n".join(lines)\<close>.\<close>

fun join_lines :: "string list \<Rightarrow> string" where
  "join_lines [] = []"
| "join_lines [l] = l"
| "join_lines (l # ls) = l @ ''\<newline>'' @ join_lines ls"

definition initialize_system_message :: "string \<Rightarrow> ReActAgent \<Rightarrow> ReActAgent" where
  "initialize_system_message initial_db_info self =
     (let tool_descriptions =
            join_lines (map (\<lambda>(k, t). ''  - '' @ name t @ '': '' @ description t) (tools self));
          system_message =
            system_message_template (agent_prompts self) tool_descriptions initial_db_info
      in self\<lparr>chat_history := [SystemTurn (strip system_message)]\<rparr>)"

text \<open>
  \<open>self.tools[tool_name].run(**tool_args)\<close>: the call itself raises a \<open>TypeError\<close> when
  \<open>tool_args\<close> is no mapping, or holds the key \<open>self\<close>.
\<close>

fun type_name :: "json \<Rightarrow> string" where
  "type_name JNull = ''NoneType''"
| "type_name (JBool b) = ''bool''"
| "type_name (JInt i) = ''int''"
| "type_name (JFloat f) = ''float''"
| "type_name (JString s) = ''str''"
| "type_name (JArray xs) = ''list''"
| "type_name (JObject kvs) = ''dict''"

definition run_with_args :: "Tool \<Rightarrow> json \<Rightarrow> exn + pyval" where
  "run_with_args t tool_args =
     (case tool_args of
        JObject kwargs \<Rightarrow>
          if ''self'' \<in> set (map fst kwargs)
          then Inl (TypeError (''Tool.run() got multiple values for argument '' @ quoted ''self''))
          else Tool_run t kwargs
      | _ \<Rightarrow>
          Inl (TypeError (''tools.Tool.run() argument after ** must be a mapping, not ''
                          @ type_name tool_args)))"

definition truncation_notice :: string where
  "truncation_notice = ''\<newline>... (results truncated due to length, showing first 5 rows)''"

definition execution_failed :: "exn \<Rightarrow> string" where
  "execution_failed e = ''Tool execution failed: '' @ str_exn e"

text \<open>The \<open>try\<close> block of the tool branch: the observation text of one executed call.\<close>

definition observation :: "env \<Rightarrow> Tool \<Rightarrow> json \<Rightarrow> string" where
  "observation E t tool_args =
     (case run_with_args t tool_args of
        Inl e \<Rightarrow> execution_failed e
      | Inr (DataFrame observation_result) \<Rightarrow>
          (case to_markdown E observation_result of
             Inl e \<Rightarrow> execution_failed e
           | Inr observation_str \<Rightarrow>
               if length observation_str > 2000
               then (case to_markdown E (head 5 observation_result) of
                       Inl e \<Rightarrow> execution_failed e
                     | Inr first_rows \<Rightarrow> first_rows @ truncation_notice)
               else observation_str)
      | Inr (PyObject s) \<Rightarrow> s)"

text \<open>
  The body of the loop over \<open>tool_calls\<close>, for one call request: the agent with the
  turns appended, or the exception of \<open>json.loads\<close> that no \<open>except\<close> clause catches.
\<close>

definition handle_tool_call :: "env \<Rightarrow> ReActAgent \<Rightarrow> tool_call \<Rightarrow> exn + ReActAgent" where
  "handle_tool_call E self tc =
     (let tool_name = tc_name tc; tool_args_str = tc_arguments tc
      in case map_of (tools self) tool_name of
           None \<Rightarrow>
             Inr (append_turn
                    (ToolTurn ''mock_id'' (''Error: Tool '' @ quoted tool_name @ '' not found.''))
                    self)
         | Some t \<Rightarrow>
             (case json_loads E tool_args_str of
                DecodeError e \<Rightarrow>
                  Inr (append_turn
                         (ToolTurn ''mock_id''
                            (''Error parsing tool arguments for '' @ tool_name @ '': '' @ e
                             @ ''. Raw arguments: '' @ tool_args_str))
                         self)
              | LoadsRaises ex \<Rightarrow> Inl ex
              | Loaded tool_args \<Rightarrow>
                  Inr (append_turn (ToolTurn ''mock_id'' (observation E t tool_args))
                         (append_turn (AssistantToolCall ''mock_id'' tool_name tool_args_str)
                            self))))"

text \<open>
  The loop over \<open>tool_calls\<close>: it ends with the batch, or with the exception that leaves
  it, the turns of the requests before being appended.
\<close>

fun dispatch :: "env \<Rightarrow> ReActAgent \<Rightarrow> tool_call list \<Rightarrow> exn option \<times> ReActAgent" where
  "dispatch E self [] = (None, self)"
| "dispatch E self (tc # rest) =
     (case handle_tool_call E self tc of
        Inl ex \<Rightarrow> (Some ex, self)
      | Inr self' \<Rightarrow> dispatch E self' rest)"

text \<open>The four ways \<open>run\<close> returns, and the string each of them returns.\<close>

datatype outcome =
    Answer string
  | CommunicationError string
  | UnexpectedType
  | MaxSteps

fun result_text :: "outcome \<Rightarrow> string" where
  "result_text (Answer a) = a"
| "result_text (CommunicationError c) =
     ''Agent terminated due to LLM communication error: '' @ c"
| "result_text UnexpectedType = ''Agent terminated due to unexpected LLM response type.''"
| "result_text MaxSteps = ''Max steps reached without providing a final answer.''"

text \<open>
  One iteration of \<open>for step in range(max_steps)\<close>: it goes on, or it returns, or an
  exception leaves it (and \<open>run\<close>, which catches none here).
\<close>

datatype step =
    Continue ReActAgent
  | Return outcome ReActAgent
  | Raise exn ReActAgent

definition agent_step :: "env \<Rightarrow> ReActAgent \<Rightarrow> step" where
  "agent_step E self =
     (case call_llm E (chat_history self) of
        ToolCalls calls \<Rightarrow>
          (case dispatch E self calls of
             (None, self) \<Rightarrow> Continue self
           | (Some ex, self) \<Rightarrow> Raise ex self)
      | TextResponse c \<Rightarrow>
          (case parse_llm_response E self c of
             (Inl ex, self) \<Rightarrow> Raise ex self
           | (Inr (Thought t), self) \<Rightarrow> Continue (append_turn (AssistantTurn c) self)
           | (Inr (FinalAnswer a), self) \<Rightarrow>
               Return (Answer a) (append_turn (AssistantTurn c) self)
           | (Inr _, self) \<Rightarrow> Continue (append_turn (AssistantTurn c) self))
      | ErrorResponse c \<Rightarrow> Return (CommunicationError c) self
      | EmptyResponse \<Rightarrow> Return UnexpectedType self)"

text \<open>
  The loop: the outcome returned, or the exception raised out of \<open>run\<close> (\<open>Inl\<close>). Beside
  it and the agent it gives the transcripts posted to the reasoning service, one for
  each call of \<open>call_llm\<close>, in order.
\<close>

fun run_loop :: "env \<Rightarrow> nat \<Rightarrow> ReActAgent \<Rightarrow> (exn + outcome) \<times> ReActAgent \<times> turn list list" where
  "run_loop E 0 self = (Inr MaxSteps, self, [])"
| "run_loop E (Suc n) self =
     (case agent_step E self of
        Return out self' \<Rightarrow> (Inr out, self', [chat_history self])
      | Raise ex self' \<Rightarrow> (Inl ex, self', [chat_history self])
      | Continue self' \<Rightarrow>
          (case run_loop E n self' of
             (out, self'', posted) \<Rightarrow> (out, self'', chat_history self # posted)))"

text \<open>Schema discovery, before the loop: the text put into the system message.\<close>

definition discover_schema :: "env \<Rightarrow> ReActAgent \<Rightarrow> string" where
  "discover_schema E self =
     (case map_of (tools self) ''describe_table'' of
        Some schema_tool \<Rightarrow>
          (case Tool_run schema_tool [(''table_name'', JString ''call_records'')] of
             Inl e \<Rightarrow> ''Error executing describe_table during init: '' @ str_exn e
           | Inr (DataFrame schema_df) \<Rightarrow>
               if \<not> empty schema_df
               then (case to_markdown E schema_df of
                       Inl e \<Rightarrow> ''Error executing describe_table during init: '' @ str_exn e
                     | Inr md \<Rightarrow>
                         ''Table '' @ quoted ''call_records'' @ '' schema:\<newline>'' @ md)
               else ''Could not retrieve schema for '' @ quoted ''call_records'' @ '': ''
                    @ df_str E schema_df
           | Inr (PyObject s) \<Rightarrow>
               ''Could not retrieve schema for '' @ quoted ''call_records'' @ '': '' @ s)
      | None \<Rightarrow>
          ''Table '' @ quoted ''call_records''
          @ '' is the primary table. Its schema is unknown; LLM should use `describe_table` tool to find it.'')"

text \<open>The agent when the loop begins: the system message, then the task of the user.\<close>

definition start :: "env \<Rightarrow> ReActAgent \<Rightarrow> string \<Rightarrow> ReActAgent" where
  "start E self task =
     append_turn (UserTurn task) (initialize_system_message (discover_schema E self) self)"

text \<open>\<open>run(task, max_steps)\<close>; \<open>range(max_steps)\<close> is empty for a budget below one.\<close>

definition run :: "env \<Rightarrow> ReActAgent \<Rightarrow> string \<Rightarrow> int \<Rightarrow> (exn + outcome) \<times> ReActAgent \<times> turn list list" where
  "run E self task max_steps = run_loop E (nat max_steps) (start E self task)"

text \<open>\<open>run(task)\<close>, with the default budget.\<close>

definition run_default :: "env \<Rightarrow> ReActAgent \<Rightarrow> string \<Rightarrow> (exn + outcome) \<times> ReActAgent \<times> turn list list" where
  "run_default E self task = run E self task 10"

text \<open>What the caller of \<open>run\<close> gets: the string returned, or the exception.\<close>

definition run_result :: "env \<Rightarrow> ReActAgent \<Rightarrow> string \<Rightarrow> int \<Rightarrow> exn + string" where
  "run_result E self task max_steps =
     (case fst (run E self task max_steps) of
        Inr out \<Rightarrow> Inr (result_text out)
      | Inl ex \<Rightarrow> Inl ex)"

section \<open>The storage backend (database.py) and the registered tools (tools.py)\<close>

text \<open>
  \<open>read_sql_query\<close> is \<open>pandas.read_sql_query\<close> on the connection: the table read, or
  the exception raised. An exception becomes a table with one \<open>error\<close> cell.
\<close>

definition error_frame :: "exn \<Rightarrow> frame" where
  "error_frame e = \<lparr>columns = [''error''], rows = [[str_exn e]]\<rparr>"

definition execute_sql_query :: "(string \<Rightarrow> exn + frame) \<Rightarrow> string \<Rightarrow> frame" where
  "execute_sql_query read_sql_query query =
     (case read_sql_query query of Inr df \<Rightarrow> df | Inl e \<Rightarrow> error_frame e)"

text \<open>\<open>df[[names]]\<close>: the named columns in the given order, a \<open>KeyError\<close> if one is absent.\<close>

fun index_of :: "'a \<Rightarrow> 'a list \<Rightarrow> nat" where
  "index_of x [] = 0"
| "index_of x (y # ys) = (if x = y then 0 else Suc (index_of x ys))"

definition select_columns :: "string list \<Rightarrow> frame \<Rightarrow> exn + frame" where
  "select_columns names df =
     (if set names \<subseteq> set (columns df)
      then Inr \<lparr>columns = names,
                rows = map (\<lambda>r. map (\<lambda>n. r ! index_of n (columns df)) names) (rows df)\<rparr>
      else Inl (OtherException ''KeyError''))"

definition get_table_schema :: "(string \<Rightarrow> exn + frame) \<Rightarrow> string \<Rightarrow> frame" where
  "get_table_schema read_sql_query table_name =
     (case read_sql_query (''PRAGMA table_info('' @ table_name @ '');'') of
        Inl e \<Rightarrow> error_frame e
      | Inr schema_df \<Rightarrow>
          if \<not> empty schema_df
          then (case select_columns [''name'', ''type'', ''notnull'', ''pk''] schema_df of
                  Inl e \<Rightarrow> error_frame e
                | Inr sel \<Rightarrow>
                    sel\<lparr>columns := [''Column Name'', ''Data Type'', ''Not Null'', ''Primary Key'']\<rparr>)
          else schema_df)"

text \<open>
  A pydantic model with one required field of type \<open>str\<close>: other keys are dropped, and a
  missing field or a value that is no string raises a \<open>ValidationError\<close>, whose message
  is cut here after the line that names the fault.
\<close>

definition str_field_model :: "string \<Rightarrow> string \<Rightarrow> dict \<Rightarrow> exn + dict" where
  "str_field_model model field kwargs =
     (case map_of kwargs field of
        Some (JString s) \<Rightarrow> Inr [(field, JString s)]
      | Some v \<Rightarrow>
          Inl (ValidationError
                 (''1 validation error for '' @ model @ ''\<newline>'' @ field
                  @ ''\<newline>  Input should be a valid string''))
      | None \<Rightarrow>
          Inl (ValidationError
                 (''1 validation error for '' @ model @ ''\<newline>'' @ field
                  @ ''\<newline>  Field required'')))"

definition SQLQueryParams :: "dict \<Rightarrow> exn + dict" where
  "SQLQueryParams = str_field_model ''SQLQueryParams'' ''query''"

definition DescribeTableParams :: "dict \<Rightarrow> exn + dict" where
  "DescribeTableParams = str_field_model ''DescribeTableParams'' ''table_name''"

text \<open>
  A function of one string parameter called with \<open>**kwargs\<close>; the descriptions are the
  ones used when \<open>prompts.yaml\<close> gives none.
\<close>

definition call_with :: "string \<Rightarrow> (string \<Rightarrow> frame) \<Rightarrow> dict \<Rightarrow> exn + pyval" where
  "call_with param f kwargs =
     (case kwargs of
        [(k, JString s)] \<Rightarrow>
          if k = param then Inr (DataFrame (f s))
          else Inl (TypeError (''got an unexpected keyword argument '' @ quoted k))
      | _ \<Rightarrow> Inl (TypeError ''missing or unexpected arguments''))"

definition sql_query_tool :: "(string \<Rightarrow> exn + frame) \<Rightarrow> Tool" where
  "sql_query_tool db =
     \<lparr>name = ''sql_query'',
      description = ''Executes a SQL query on the 'call_records' database.'',
      func = call_with ''query'' (execute_sql_query db),
      args_schema = Some SQLQueryParams\<rparr>"

definition describe_table_tool :: "(string \<Rightarrow> exn + frame) \<Rightarrow> Tool" where
  "describe_table_tool db =
     \<lparr>name = ''describe_table'',
      description = ''Returns the schema of a specified table.'',
      func = call_with ''table_name'' (get_table_schema db),
      args_schema = Some DescribeTableParams\<rparr>"

definition ALL_TOOLS :: "(string \<Rightarrow> exn + frame) \<Rightarrow> (string \<times> Tool) list" where
  "ALL_TOOLS db =
     [(name (sql_query_tool db), sql_query_tool db),
      (name (describe_table_tool db), describe_table_tool db)]"

section \<open>A library and a world to run the agent in\<close>

text \<open>
  A reader of JSON texts that stands for \<open>json.loads\<close> where a theorem is applied to
  concrete input. It reads the grammar of the \<open>json\<close> module (objects whose later
  duplicate keys win, arrays, strings with the one-letter escapes, numbers, the
  constants), skips blanks around the value and rejects what follows it. As the
  library with its default limits, it raises a \<open>ValueError\<close> on an integer of more than
  4300 digits, and a \<open>RecursionError\<close> on brackets nested beyond a limit, which in the
  library depends on the depth of the call and is taken here as 990. Its messages are
  cut short, it reads no \<open>\u\<close> escape, and \<open>fuel\<close> bounds the calls, which are at most
  two for a character of the text.
\<close>

definition skip_ws :: "string \<Rightarrow> string" where
  "skip_ws s = dropWhile (\<lambda>c. c \<in> set [CHR '' '', CHR 0x09, CHR ''\<newline>'', CHR 0x0D]) s"

definition isdigit :: "char \<Rightarrow> bool" where
  "isdigit c = (48 \<le> (of_char c :: nat) \<and> (of_char c :: nat) \<le> 57)"

definition digits_value :: "string \<Rightarrow> int" where
  "digits_value ds = foldl (\<lambda>acc d. 10 * acc + (int (of_char d) - 48)) 0 ds"

fun scan_string :: "string \<Rightarrow> string \<Rightarrow> string + (string \<times> string)" where
  "scan_string acc [] = Inl ''Unterminated string starting at''"
| "scan_string acc (c # cs) =
     (if c = CHR 0x22 then Inr (acc, cs)
      else if (of_char c :: nat) < 32 then Inl ''Invalid control character at''
      else if c = CHR 0x5C
      then (case cs of
              [] \<Rightarrow> Inl ''Unterminated string starting at''
            | e # rest \<Rightarrow>
                (case map_of
                        [(CHR 0x22, CHR 0x22), (CHR 0x5C, CHR 0x5C), (CHR ''/'', CHR ''/''),
                         (CHR ''b'', CHR 0x08), (CHR ''f'', CHR 0x0C),
                         (CHR ''n'', CHR ''\<newline>''), (CHR ''r'', CHR 0x0D),
                         (CHR ''t'', CHR 0x09)] e of
                   Some x \<Rightarrow> scan_string (acc @ [x]) rest
                 | None \<Rightarrow> Inl (''Invalid '' @ [CHR 0x5C] @ ''escape'')))
      else scan_string (acc @ [c]) cs)"

text \<open>The number at the start of \<open>s\<close>, if there is one, and the text after it.\<close>

definition scan_number :: "string \<Rightarrow> ((exn + json) \<times> string) option" where
  "scan_number s =
     (let sign = (if startswith s ''-'' then ''-'' else '''');
          s1 = drop (length sign) s;
          ds = takeWhile isdigit s1;
          ipart = (if startswith ds ''0'' then ''0'' else ds);
          s2 = drop (length ipart) s1;
          fdigits = (case s2 of c # r \<Rightarrow> if c = CHR ''.'' then takeWhile isdigit r else [] | [] \<Rightarrow> []);
          frac = (if fdigits = [] then [] else CHR ''.'' # fdigits);
          s3 = drop (length frac) s2;
          expo =
            (case s3 of
               e # r \<Rightarrow>
                 if e = CHR ''e'' \<or> e = CHR ''E''
                 then (let sg = (case r of x # r' \<Rightarrow> if x = CHR ''+'' \<or> x = CHR ''-'' then [x] else []
                                 | [] \<Rightarrow> []);
                           eds = takeWhile isdigit (drop (length sg) r)
                       in if eds = [] then [] else e # sg @ eds)
                 else []
             | [] \<Rightarrow> []);
          s4 = drop (length expo) s3
      in if ipart = [] then None
         else if frac = [] \<and> expo = []
         then (if length ipart > 4300
               then Some (Inl (ValueError
                                 ''Exceeds the limit (4300 digits) for integer string conversion''),
                          s4)
               else Some (Inr (JInt (if sign = [] then digits_value ipart
                                     else - digits_value ipart)),
                          s4))
         else Some (Inr (JFloat (sign @ ipart @ frac @ expo)), s4))"

text \<open>How reading fails: with a \<open>JSONDecodeError\<close>, or with another exception.\<close>

datatype failure = Malformed string | Raised exn

definition nesting_limit :: nat where
  "nesting_limit = 990"

fun parse_value :: "nat \<Rightarrow> nat \<Rightarrow> string \<Rightarrow> failure + (json \<times> string)"
  and parse_array :: "nat \<Rightarrow> nat \<Rightarrow> json list \<Rightarrow> string \<Rightarrow> failure + (json \<times> string)"
  and parse_object :: "nat \<Rightarrow> nat \<Rightarrow> dict \<Rightarrow> string \<Rightarrow> failure + (json \<times> string)"
where
  "parse_value 0 depth s = Inl (Malformed ''Out of fuel'')"
| "parse_value (Suc n) depth s =
     (if startswith s [CHR 0x22]
      then (case scan_string [] (drop 1 s) of
              Inl e \<Rightarrow> Inl (Malformed e)
            | Inr (str, r) \<Rightarrow> Inr (JString str, r))
      else if startswith s ''{''
      then (if nesting_limit \<le> depth
            then Inl (Raised (RecursionError
                   ''maximum recursion depth exceeded while decoding a JSON object from a unicode string''))
            else (let r = skip_ws (drop 1 s)
                  in if startswith r ''}'' then Inr (JObject [], drop 1 r)
                     else parse_object n (Suc depth) [] r))
      else if startswith s ''[''
      then (if nesting_limit \<le> depth
            then Inl (Raised (RecursionError
                   ''maximum recursion depth exceeded while decoding a JSON array from a unicode string''))
            else (let r = skip_ws (drop 1 s)
                  in if startswith r '']'' then Inr (JArray [], drop 1 r)
                     else parse_array n (Suc depth) [] r))
      else if startswith s ''null'' then Inr (JNull, drop 4 s)
      else if startswith s ''true'' then Inr (JBool True, drop 4 s)
      else if startswith s ''false'' then Inr (JBool False, drop 5 s)
      else (case scan_number s of
              Some (Inr v, r) \<Rightarrow> Inr (v, r)
            | Some (Inl ex, r) \<Rightarrow> Inl (Raised ex)
            | None \<Rightarrow>
                if startswith s ''NaN'' then Inr (JFloat ''nan'', drop 3 s)
                else if startswith s ''Infinity'' then Inr (JFloat ''inf'', drop 8 s)
                else if startswith s ''-Infinity'' then Inr (JFloat ''-inf'', drop 9 s)
                else Inl (Malformed ''Expecting value'')))"
| "parse_array 0 depth acc s = Inl (Malformed ''Out of fuel'')"
| "parse_array (Suc n) depth acc s =
     (case parse_value n depth s of
        Inl e \<Rightarrow> Inl e
      | Inr (v, r) \<Rightarrow>
          (let r1 = skip_ws r
           in if startswith r1 '','' then parse_array n depth (acc @ [v]) (skip_ws (drop 1 r1))
              else if startswith r1 '']'' then Inr (JArray (acc @ [v]), drop 1 r1)
              else Inl (Malformed ''Expecting ',' delimiter'')))"
| "parse_object 0 depth acc s = Inl (Malformed ''Out of fuel'')"
| "parse_object (Suc n) depth acc s =
     (if startswith s [CHR 0x22]
      then (case scan_string [] (drop 1 s) of
              Inl e \<Rightarrow> Inl (Malformed e)
            | Inr (key, r) \<Rightarrow>
                (let r1 = skip_ws r
                 in if startswith r1 '':''
                    then (case parse_value n depth (skip_ws (drop 1 r1)) of
                            Inl e \<Rightarrow> Inl e
                          | Inr (v, r2) \<Rightarrow>
                              (let r3 = skip_ws r2
                               in if startswith r3 '',''
                                  then parse_object n depth (AList.update key v acc)
                                         (skip_ws (drop 1 r3))
                                  else if startswith r3 ''}''
                                  then Inr (JObject (AList.update key v acc), drop 1 r3)
                                  else Inl (Malformed ''Expecting ',' delimiter'')))
                    else Inl (Malformed ''Expecting ':' delimiter'')))
      else Inl (Malformed ''Expecting property name enclosed in double quotes''))"

definition read_json :: "string \<Rightarrow> loads_result" where
  "read_json s =
     (case parse_value (Suc (2 * length s)) 0 (skip_ws s) of
        Inl (Malformed e) \<Rightarrow> DecodeError e
      | Inl (Raised ex) \<Rightarrow> LoadsRaises ex
      | Inr (v, r) \<Rightarrow> if skip_ws r = [] then Loaded v else DecodeError ''Extra data'')"

text \<open>
  A renderer that stands for \<open>DataFrame.to_markdown(index=False)\<close>: the pipe table of
  \<open>tabulate\<close> for cells of text, every column as wide as its widest cell and at least
  two wider than its header.
\<close>

definition pad :: "nat \<Rightarrow> string \<Rightarrow> string" where
  "pad w s = s @ replicate (w - length s) (CHR '' '')"

definition column_width :: "frame \<Rightarrow> nat \<Rightarrow> nat" where
  "column_width df j =
     foldl max (length (columns df ! j) + 2) (map (\<lambda>r. length (r ! j)) (rows df))"

definition table_line :: "string list \<Rightarrow> string" where
  "table_line cells = ''|'' @ concat (map (\<lambda>c. '' '' @ c @ '' |'') cells)"

definition pipe_table :: "frame \<Rightarrow> string" where
  "pipe_table df =
     (let js = [0..<length (columns df)];
          line = (\<lambda>cells. table_line (map (\<lambda>j. pad (column_width df j) (cells ! j)) js));
          rule = ''|'' @ concat (map (\<lambda>j. '':'' @ replicate (column_width df j + 1) (CHR ''-'')
                                           @ ''|'') js)
      in join_lines (line (columns df) # rule # map line (rows df)))"

text \<open>
  A stand-in for the database: it answers four queries with fixed tables, among them a
  table of one row whose \<open>notes\<close> hold 2100 characters and a table of seven rows whose
  \<open>notes\<close> hold 240 characters each, and fails on every other query.
\<close>

definition long_frame :: frame where
  "long_frame =
     \<lparr>columns = [''call_id'', ''notes''],
      rows = map (\<lambda>c. [[c], replicate 240 (CHR ''y'')]) ''1234567''\<rparr>"

definition sample_db :: "string \<Rightarrow> exn + frame" where
  "sample_db query =
     (if query = ''PRAGMA table_info(call_records);''
      then Inr \<lparr>columns = [''cid'', ''name'', ''type'', ''notnull'', ''dflt_value'', ''pk''],
                rows = [[''0'', ''call_id'', ''INTEGER'', ''0'', ''None'', ''0''],
                        [''1'', ''notes'', ''TEXT'', ''0'', ''None'', ''0'']]\<rparr>
      else if query = ''SELECT call_id FROM call_records''
      then Inr \<lparr>columns = [''call_id''], rows = [[''1'']]\<rparr>
      else if query = ''SELECT notes FROM call_records''
      then Inr \<lparr>columns = [''notes''], rows = [[replicate 2100 (CHR ''x'')]]\<rparr>
      else if query = ''SELECT call_id, notes FROM call_records''
      then Inr long_frame
      else Inl (OtherException (''Execution failed on sql '' @ quoted query)))"

definition sample_prompts :: prompts where
  "sample_prompts =
     \<lparr>system_message_template =
        (\<lambda>tool_descriptions initial_db_info.
           ''You answer questions about call records.\<newline>Tools:\<newline>'' @ tool_descriptions
           @ ''\<newline>'' @ initial_db_info @ ''\<newline>''),
      initial_user_query_for_schema = ''Describe the table call_records.''\<rparr>"

definition sample_agent :: ReActAgent where
  "sample_agent =
     \<lparr>tools = ALL_TOOLS sample_db, chat_history = [], agent_prompts = sample_prompts\<rparr>"

text \<open>The world in which the reasoning service answers as \<open>service\<close> says.\<close>

definition world :: "(turn list \<Rightarrow> http_outcome) \<Rightarrow> env" where
  "world service =
     \<lparr>json_loads = read_json,
      to_markdown = (\<lambda>df. Inr (pipe_table df)),
      df_str = (\<lambda>df. ''Empty DataFrame''),
      chat_completions = service\<rparr>"

section \<open>What the specification says of a batch of call requests\<close>

text \<open>
  The observation a call request is answered with, in the words of the specification:
  a "not found" notice for a tool that is not registered, a notice of the parse failure
  for a payload that does not parse, and the formatted result of the tool otherwise.
\<close>

definition parse_failure :: "tool_call \<Rightarrow> string \<Rightarrow> string" where
  "parse_failure tc e =
     ''Error parsing tool arguments for '' @ tc_name tc @ '': '' @ e
     @ ''. Raw arguments: '' @ tc_arguments tc"

definition tool_reply :: "env \<Rightarrow> (string \<times> Tool) list \<Rightarrow> tool_call \<Rightarrow> string" where
  "tool_reply E registry tc =
     (case map_of registry (tc_name tc) of
        None \<Rightarrow> ''Error: Tool '' @ quoted (tc_name tc) @ '' not found.''
      | Some t \<Rightarrow>
          (case json_loads E (tc_arguments tc) of
             DecodeError e \<Rightarrow> parse_failure tc e
           | LoadsRaises ex \<Rightarrow> parse_failure tc (str_exn ex)
           | Loaded tool_args \<Rightarrow> observation E t tool_args))"

text \<open>
  The requests on which the code does not get that far: a registered tool, and a
  payload on which \<open>json.loads\<close> raises another exception than \<open>JSONDecodeError\<close>.
\<close>

definition payload_raises :: "env \<Rightarrow> (string \<times> Tool) list \<Rightarrow> tool_call \<Rightarrow> bool" where
  "payload_raises E registry tc =
     (case map_of registry (tc_name tc) of
        None \<Rightarrow> False
      | Some t \<Rightarrow>
          (case json_loads E (tc_arguments tc) of LoadsRaises ex \<Rightarrow> True | _ \<Rightarrow> False))"

text \<open>The tool-result turns among some turns, in their order.\<close>

definition tool_turns :: "turn list \<Rightarrow> turn list" where
  "tool_turns ts = filter (\<lambda>t. role t = ''tool'') ts"

text \<open>
  The transcript after the iteration that posted \<open>posted ! i\<close>: the next transcript
  posted, or the last transcript of the run.
\<close>

definition transcript_after :: "turn list list \<Rightarrow> ReActAgent \<Rightarrow> nat \<Rightarrow> turn list" where
  "transcript_after posted final i =
     (if Suc i < length posted then posted ! Suc i else chat_history final)"

text \<open>
  Three call requests: for a tool that is not registered, with a payload that is no
  JSON, and a query that runs. One service asks for them once and then answers; the
  other asks for them at every call.
\<close>

definition sample_calls :: "tool_call list" where
  \<open>sample_calls =
     [\<lparr>tc_name = ''foo_tool'', tc_arguments = ''{}''\<rparr>,
      \<lparr>tc_name = ''sql_query'', tc_arguments = ''{query''\<rparr>,
      \<lparr>tc_name = ''sql_query'',
       tc_arguments = ''{"query": "SELECT call_id FROM call_records"}''\<rparr>]\<close>

definition sample_service :: "turn list \<Rightarrow> http_outcome" where
  "sample_service h =
     (if length h = 2 then Reply \<lparr>tool_calls = Some sample_calls, content = None\<rparr>
      else Reply \<lparr>tool_calls = None, content = Some ''Final Answer: 42''\<rparr>)"

definition busy_service :: "turn list \<Rightarrow> http_outcome" where
  "busy_service h = Reply \<lparr>tool_calls = Some sample_calls, content = None\<rparr>"

definition sample_run :: "(exn + outcome) \<times> ReActAgent \<times> turn list list" where
  "sample_run = run (world sample_service) sample_agent ''How many calls?'' 10"

definition busy_run :: "(exn + outcome) \<times> ReActAgent \<times> turn list list" where
  "busy_run = run (world busy_service) sample_agent ''How many calls?'' 2"

text \<open>A service that asks once for a query without its \<open>query\<close> argument.\<close>

definition invalid_call :: tool_call where
  "invalid_call = \<lparr>tc_name = ''sql_query'', tc_arguments = ''{}''\<rparr>"

definition invalid_service :: "turn list \<Rightarrow> http_outcome" where
  "invalid_service h =
     (if length h = 2 then Reply \<lparr>tool_calls = Some [invalid_call], content = None\<rparr>
      else Reply \<lparr>tool_calls = None, content = Some ''Final Answer: 42''\<rparr>)"

definition invalid_run :: "(exn + outcome) \<times> ReActAgent \<times> turn list list" where
  "invalid_run = run (world invalid_service) sample_agent ''How many calls?'' 10"

text \<open>
  Two services that ask once for two queries. The payload of the first query is an
  integer of 4301 digits with the one, and 1000 opening brackets with the other; the
  second query is one that runs.
\<close>

definition good_call :: tool_call where
  \<open>good_call =
     \<lparr>tc_name = ''sql_query'',
      tc_arguments = ''{"query": "SELECT call_id FROM call_records"}''\<rparr>\<close>

definition digits_call :: tool_call where
  "digits_call = \<lparr>tc_name = ''sql_query'', tc_arguments = replicate 4301 (CHR ''1'')\<rparr>"

definition digits_service :: "turn list \<Rightarrow> http_outcome" where
  "digits_service h =
     (if length h = 2 then Reply \<lparr>tool_calls = Some [digits_call, good_call], content = None\<rparr>
      else Reply \<lparr>tool_calls = None, content = Some ''Final Answer: 42''\<rparr>)"

definition digits_run :: "(exn + outcome) \<times> ReActAgent \<times> turn list list" where
  "digits_run = run (world digits_service) sample_agent ''How many calls?'' 10"

definition brackets_call :: tool_call where
  "brackets_call = \<lparr>tc_name = ''sql_query'', tc_arguments = replicate 1000 (CHR ''['')\<rparr>"

definition brackets_service :: "turn list \<Rightarrow> http_outcome" where
  "brackets_service h =
     (if length h = 2 then Reply \<lparr>tool_calls = Some [brackets_call, good_call], content = None\<rparr>
      else Reply \<lparr>tool_calls = None, content = Some ''Final Answer: 42''\<rparr>)"

definition brackets_run :: "(exn + outcome) \<times> ReActAgent \<times> turn list list" where
  "brackets_run = run (world brackets_service) sample_agent ''How many calls?'' 10"

text \<open>The arguments of three queries, and the table of the one with the long cell.\<close>

definition long_query :: json where
  "long_query = JObject [(''query'', JString ''SELECT call_id, notes FROM call_records'')]"

definition notes_query :: json where
  "notes_query = JObject [(''query'', JString ''SELECT notes FROM call_records'')]"

definition id_query :: json where
  "id_query = JObject [(''query'', JString ''SELECT call_id FROM call_records'')]"

definition notes_frame :: frame where
  "notes_frame = \<lparr>columns = [''notes''], rows = [[replicate 2100 (CHR ''x'')]]\<rparr>"

text \<open>A service that answers at once, with two blanks before the marker.\<close>

definition indented_service :: "turn list \<Rightarrow> http_outcome" where
  "indented_service h = Reply \<lparr>tool_calls = None, content = Some ''  Final Answer: 42''\<rparr>"

definition plain_service :: "turn list \<Rightarrow> http_outcome" where
  "plain_service h = Reply \<lparr>tool_calls = None, content = Some ''Final Answer: 42''\<rparr>"

section \<open>What the specification says of the arguments of an action\<close>

text \<open>
  The arguments, in the words of the specification: the text between the parentheses
  read as an object literal; when that fails, the text split on commas, every piece
  that holds \<open>=\<close> split into a key and a value, and the value read as a literal, or
  kept as its text, trimmed and without its quotes.
\<close>

definition literal_or_text :: "(string \<Rightarrow> loads_result) \<Rightarrow> string \<Rightarrow> json" where
  "literal_or_text loads v =
     (case loads (strip v) of
        Loaded j \<Rightarrow> j
      | _ \<Rightarrow> JString (strip_chars [CHR 0x27, CHR 0x22] (strip v)))"

definition key_value_pairs :: "(string \<Rightarrow> loads_result) \<Rightarrow> string list \<Rightarrow> (string \<times> json) list" where
  "key_value_pairs loads pieces =
     map (\<lambda>p. (strip (takeWhile (\<lambda>x. x \<noteq> CHR ''='') p),
                literal_or_text loads (drop 1 (dropWhile (\<lambda>x. x \<noteq> CHR ''='') p))))
       (filter (\<lambda>p. CHR ''='' \<in> set p) pieces)"

definition spec_action_args :: "(string \<Rightarrow> loads_result) \<Rightarrow> string \<Rightarrow> json" where
  "spec_action_args loads args_str =
     (case loads (''{'' @ args_str @ ''}'') of
        Loaded obj \<Rightarrow> obj
      | _ \<Rightarrow>
          JObject (foldl (\<lambda>d (k, v). AList.update k v d) []
                     (key_value_pairs loads (split_chr (CHR '','') args_str))))"

text \<open>
  The texts on which \<open>json.loads\<close> raises another exception than \<open>JSONDecodeError\<close>, and
  the arguments of an action that hold none: neither as a whole between braces, nor as
  the value of a piece.
\<close>

definition loads_raises :: "(string \<Rightarrow> loads_result) \<Rightarrow> string \<Rightarrow> bool" where
  "loads_raises loads s = (case loads s of LoadsRaises ex \<Rightarrow> True | _ \<Rightarrow> False)"

definition args_load :: "(string \<Rightarrow> loads_result) \<Rightarrow> string \<Rightarrow> bool" where
  "args_load loads args_str =
     (\<not> loads_raises loads (''{'' @ args_str @ ''}'')
      \<and> list_all (\<lambda>p. CHR ''='' \<in> set p \<longrightarrow>
                       \<not> loads_raises loads (strip (drop 1 (dropWhile (\<lambda>x. x \<noteq> CHR ''='') p))))
            (split_chr (CHR '','') args_str))"

section \<open>What the loop keeps and what it posts\<close>

lemma contains_infix: "contains (a @ sub @ b) sub"
proof -
  have "startswith (drop (length a) (a @ sub @ b)) sub"
    by (simp add: startswith_def)
  moreover have "length a \<in> set [0..<Suc (length (a @ sub @ b))]"
    by simp
  ultimately show ?thesis
    unfolding contains_def list_ex_iff by blast
qed

lemma append_turn_fields [simp]:
  "tools (append_turn t a) = tools a"
  "agent_prompts (append_turn t a) = agent_prompts a"
  "chat_history (append_turn t a) = chat_history a @ [t]"
  by (simp_all add: append_turn_def)

lemma handle_tool_call_fields:
  "handle_tool_call E a tc = Inr b \<Longrightarrow> tools b = tools a \<and> agent_prompts b = agent_prompts a"
  by (auto simp: handle_tool_call_def Let_def split: option.splits loads_result.splits)

lemma dispatch_fields:
  "dispatch E a calls = (r, b) \<Longrightarrow> tools b = tools a \<and> agent_prompts b = agent_prompts a"
proof (induction calls arbitrary: a)
  case Nil
  then show ?case by simp
next
  case (Cons tc calls)
  show ?case
  proof (cases "handle_tool_call E a tc")
    case (Inl ex)
    with Cons.prems show ?thesis by simp
  next
    case (Inr a')
    with Cons.prems have "dispatch E a' calls = (r, b)" by simp
    from Cons.IH [OF this] handle_tool_call_fields [OF Inr] show ?thesis by simp
  qed
qed

lemma parse_llm_response_self: "snd (parse_llm_response E a c) = a"
  by (simp add: parse_llm_response_def Let_def
      split: option.splits list.splits loads_result.splits sum.splits)

lemma parse_llm_response_agent: "parse_llm_response E a c = (p, b) \<Longrightarrow> b = a"
  using parse_llm_response_self [of E a c] by simp

lemma agent_step_fields:
  "agent_step E a = Continue b \<Longrightarrow> tools b = tools a \<and> agent_prompts b = agent_prompts a"
  "agent_step E a = Return out b \<Longrightarrow>
     tools b = tools a \<and> agent_prompts b = agent_prompts a \<and> out \<noteq> MaxSteps"
  "agent_step E a = Raise ex b \<Longrightarrow> tools b = tools a \<and> agent_prompts b = agent_prompts a"
  by (auto simp: agent_step_def
      split: llm_response.splits prod.splits parsed.splits sum.splits option.splits
      dest: parse_llm_response_agent dispatch_fields)

lemma run_loop_length: "run_loop E n a = (out, b, posted) \<Longrightarrow> length posted \<le> n"
proof (induction n arbitrary: a out b posted)
  case 0
  then show ?case by simp
next
  case (Suc n)
  show ?case
  proof (cases "agent_step E a")
    case (Continue a')
    obtain o1 b1 p1 where r: "run_loop E n a' = (o1, b1, p1)"
      by (cases "run_loop E n a'") auto
    with Suc.prems Continue have "posted = chat_history a # p1" by simp
    with Suc.IH [OF r] show ?thesis by simp
  next
    case (Return out' a')
    with Suc.prems show ?thesis by auto
  next
    case (Raise ex a')
    with Suc.prems show ?thesis by auto
  qed
qed

lemma run_loop_hd:
  "run_loop E n a = (out, b, posted) \<Longrightarrow> posted \<noteq> [] \<Longrightarrow> posted ! 0 = chat_history a"
  by (cases n) (auto split: step.splits prod.splits)

text \<open>
  Every transcript posted but the last is followed by an iteration that goes on, to the
  next transcript posted; the last one is followed by the iteration that returns or
  raises, or, when the budget is used up, by one more that goes on.
\<close>

lemma run_loop_steps:
  "run_loop E n a = (out, b, posted) \<Longrightarrow> i < length posted \<Longrightarrow>
   (if Suc i < length posted
    then \<exists>c. agent_step E (a\<lparr>chat_history := posted ! i\<rparr>) = Continue c
             \<and> chat_history c = posted ! Suc i
    else (case out of
            Inl ex \<Rightarrow> agent_step E (a\<lparr>chat_history := posted ! i\<rparr>) = Raise ex b
          | Inr r \<Rightarrow>
              if r = MaxSteps
              then length posted = n
                   \<and> agent_step E (a\<lparr>chat_history := posted ! i\<rparr>) = Continue b
              else agent_step E (a\<lparr>chat_history := posted ! i\<rparr>) = Return r b))"
proof (induction n arbitrary: a i posted out b)
  case 0
  then show ?case by simp
next
  case (Suc n)
  show ?case
  proof (cases "agent_step E a")
    case (Return out' a')
    with Suc.prems have "posted = [chat_history a]" "out = Inr out'" "b = a'" by auto
    with Suc.prems Return agent_step_fields(2) [OF Return] show ?thesis by simp
  next
    case (Raise ex a')
    with Suc.prems have "posted = [chat_history a]" "out = Inl ex" "b = a'" by auto
    with Suc.prems Raise show ?thesis by simp
  next
    case (Continue a')
    obtain o1 b1 p1 where r: "run_loop E n a' = (o1, b1, p1)"
      by (cases "run_loop E n a'") auto
    with Suc.prems Continue have eqs: "posted = chat_history a # p1" "out = o1" "b = b1"
      by simp_all
    have same: "a'\<lparr>chat_history := h\<rparr> = a\<lparr>chat_history := h\<rparr>" for h
      using agent_step_fields(1) [OF Continue] by (cases a, cases a') simp
    show ?thesis
    proof (cases i)
      case 0
      show ?thesis
      proof (cases "p1 = []")
        case True
        with r have "n = 0 \<and> o1 = Inr MaxSteps \<and> b1 = a'"
          by (cases n) (auto split: step.splits prod.splits)
        with 0 eqs True Continue show ?thesis by simp
      next
        case False
        with run_loop_hd [OF r] have "p1 ! 0 = chat_history a'" by simp
        with 0 eqs False Continue show ?thesis by simp
      qed
    next
      case (Suc j)
      with Suc.prems eqs have j: "j < length p1" by simp
      from Suc.IH [OF r j] Suc eqs show ?thesis
        unfolding same by (auto split: if_splits sum.splits)
    qed
  qed
qed

lemma run_loop_returns:
  assumes "run_loop E n a = (out, b, posted)" and "i < length posted"
    and "agent_step E (a\<lparr>chat_history := posted ! i\<rparr>) = Return out' b'"
  shows "out = Inr out' \<and> b = b' \<and> Suc i = length posted"
  using run_loop_steps [OF assms(1,2)] assms(2,3) by (auto split: if_splits sum.splits)

lemma run_start: "run E self task max_steps = run_loop E (nat max_steps) (start E self task)"
  by (simp add: run_def)

lemma start_fields [simp]:
  "tools (start E self task) = tools self"
  "agent_prompts (start E self task) = agent_prompts self"
  "length (chat_history (start E self task)) = 2"
  "tool_turns (chat_history (start E self task)) = []"
  by (simp_all add: start_def initialize_system_message_def Let_def tool_turns_def)

text \<open>
  C6. When a call of the reasoning service fails with a connection failure, the run
  returns at once: that call is the last one posted, nothing is appended to the
  transcript, and the string returned holds "Connection Error".
\<close>

theorem connection_failure_is_fatal:
  assumes "run E self task max_steps = (out, self', posted)"
    and "i < length posted"
    and "chat_completions E (posted ! i) = ConnectionError conn_err"
  shows "out = Inr (CommunicationError (''Connection Error: '' @ conn_err))
       \<and> run_result E self task max_steps =
           Inr (''Agent terminated due to LLM communication error: Connection Error: ''
                @ conn_err)
       \<and> contains
           (''Agent terminated due to LLM communication error: Connection Error: '' @ conn_err)
           ''Connection Error''
       \<and> Suc i = length posted
       \<and> chat_history self' = posted ! i"
proof -
  let ?a = "(start E self task)\<lparr>chat_history := posted ! i\<rparr>"
  have step: "agent_step E ?a = Return (CommunicationError (''Connection Error: '' @ conn_err)) ?a"
    using assms(3) by (simp add: agent_step_def call_llm_def)
  from assms(1) have loop: "run_loop E (nat max_steps) (start E self task) = (out, self', posted)"
    by (simp add: run_start)
  from run_loop_returns [OF loop assms(2) step]
  have res: "out = Inr (CommunicationError (''Connection Error: '' @ conn_err))"
    and last: "Suc i = length posted" and self': "self' = ?a"
    by simp_all
  have "contains (''Agent terminated due to LLM communication error: '' @ ''Connection Error'' @ '': '' @ conn_err)
          ''Connection Error''"
    by (rule contains_infix)
  with res last self' assms(1) show ?thesis
    by (simp add: run_result_def)
qed

theorem connection_failure_witness:
  "run_result (world (\<lambda>h. ConnectionError ''refused'')) sample_agent ''How many calls?'' 10 =
     Inr ''Agent terminated due to LLM communication error: Connection Error: refused''
   \<and> length (snd (snd (run (world (\<lambda>h. ConnectionError ''refused'')) sample_agent
                         ''How many calls?'' 10))) = 1"
proof -
  let ?E = "world (\<lambda>h. ConnectionError ''refused'')"
  obtain out b posted where r: "run ?E sample_agent ''How many calls?'' 10 = (out, b, posted)"
    by (cases "run ?E sample_agent ''How many calls?'' 10") auto
  have "0 < length (snd (snd (run ?E sample_agent ''How many calls?'' 10)))"
    by code_simp
  with r have i: "0 < length posted" by simp
  have c: "chat_completions ?E (posted ! 0) = ConnectionError ''refused''"
    by (simp add: world_def)
  from connection_failure_is_fatal [OF r i c] r show ?thesis by simp
qed

text \<open>
  C10. A response message with neither tool calls nor text is classified as empty, a
  result of its own; the run then returns at once with the fixed string
  "Agent terminated due to unexpected LLM response type.", by a return that is not the
  one of a final answer, of a communication error or of the used-up budget.
\<close>

theorem empty_response_ends_run:
  assumes "run E self task max_steps = (out, self', posted)"
    and "i < length posted"
    and "chat_completions E (posted ! i) = Reply m"
    and "tool_calls m = None \<or> tool_calls m = Some []"
    and "content m = None \<or> content m = Some []"
  shows "call_llm E (posted ! i) = EmptyResponse
       \<and> out = Inr UnexpectedType
       \<and> run_result E self task max_steps =
           Inr ''Agent terminated due to unexpected LLM response type.''
       \<and> Suc i = length posted
       \<and> chat_history self' = posted ! i
       \<and> run_result E self task max_steps \<noteq> Inr (result_text MaxSteps)
       \<and> (\<forall>c. run_result E self task max_steps \<noteq> Inr (result_text (CommunicationError c)))"
proof -
  let ?a = "(start E self task)\<lparr>chat_history := posted ! i\<rparr>"
  have empty: "call_llm E (posted ! i) = EmptyResponse"
    using assms(3,4,5) by (auto simp: call_llm_def)
  then have step: "agent_step E ?a = Return UnexpectedType ?a"
    by (simp add: agent_step_def)
  from assms(1) have loop: "run_loop E (nat max_steps) (start E self task) = (out, self', posted)"
    by (simp add: run_start)
  from run_loop_returns [OF loop assms(2) step]
  have "out = Inr UnexpectedType" "Suc i = length posted" "self' = ?a"
    by simp_all
  with empty assms(1) show ?thesis
    by (simp add: run_result_def)
qed

theorem empty_response_witness:
  "run_result (world (\<lambda>h. Reply \<lparr>tool_calls = Some [], content = None\<rparr>)) sample_agent
     ''How many calls?'' 10 = Inr ''Agent terminated due to unexpected LLM response type.''
   \<and> length (snd (snd (run (world (\<lambda>h. Reply \<lparr>tool_calls = Some [], content = None\<rparr>))
                         sample_agent ''How many calls?'' 10))) = 1"
proof -
  let ?m = "\<lparr>tool_calls = Some [], content = None\<rparr>"
  let ?E = "world (\<lambda>h. Reply ?m)"
  obtain out b posted where r: "run ?E sample_agent ''How many calls?'' 10 = (out, b, posted)"
    by (cases "run ?E sample_agent ''How many calls?'' 10") auto
  have "0 < length (snd (snd (run ?E sample_agent ''How many calls?'' 10)))"
    by code_simp
  with r have i: "0 < length posted" by simp
  have c: "chat_completions ?E (posted ! 0) = Reply ?m"
    by (simp add: world_def)
  have t: "tool_calls ?m = None \<or> tool_calls ?m = Some []" by simp
  have n: "content ?m = None \<or> content ?m = Some []" by simp
  from empty_response_ends_run [OF r i c t n] r show ?thesis by simp
qed

section \<open>Batches of call requests\<close>

lemma tool_turns_simps [simp]:
  "tool_turns [] = []"
  "tool_turns (xs @ ys) = tool_turns xs @ tool_turns ys"
  "tool_turns (ToolTurn i c # ts) = ToolTurn i c # tool_turns ts"
  "tool_turns (AssistantToolCall i n a # ts) = tool_turns ts"
  "tool_turns (AssistantTurn c # ts) = tool_turns ts"
  by (simp_all add: tool_turns_def)

lemma handle_tool_call_raises:
  "payload_raises E (tools a) tc \<Longrightarrow> \<exists>ex. handle_tool_call E a tc = Inl ex"
  by (auto simp: payload_raises_def handle_tool_call_def Let_def
      split: option.splits loads_result.splits)

lemma handle_tool_call_history:
  "\<not> payload_raises E (tools a) tc \<Longrightarrow>
   \<exists>b new. handle_tool_call E a tc = Inr b \<and> chat_history b = chat_history a @ new
          \<and> tool_turns new = [ToolTurn ''mock_id'' (tool_reply E (tools a) tc)]"
  by (auto simp: payload_raises_def handle_tool_call_def tool_reply_def parse_failure_def Let_def
      split: option.splits loads_result.splits)

text \<open>
  The loop over a batch answers the requests before the first one whose payload makes
  \<open>json.loads\<close> raise, each with one tool-result turn, and ends there with the exception;
  it answers them all when there is no such request.
\<close>

lemma dispatch_history:
  "\<exists>r b new. dispatch E a calls = (r, b) \<and> chat_history b = chat_history a @ new
     \<and> tool_turns new =
         map (\<lambda>tc. ToolTurn ''mock_id'' (tool_reply E (tools a) tc))
           (takeWhile (\<lambda>tc. \<not> payload_raises E (tools a) tc) calls)
     \<and> (r = None \<longleftrightarrow> \<not> list_ex (payload_raises E (tools a)) calls)"
proof (induction calls arbitrary: a)
  case Nil
  show ?case by simp
next
  case (Cons tc calls)
  show ?case
  proof (cases "payload_raises E (tools a) tc")
    case True
    with handle_tool_call_raises obtain ex where "handle_tool_call E a tc = Inl ex" by blast
    with True show ?thesis by simp
  next
    case False
    from handle_tool_call_history [OF False] obtain a1 n1 where
      h: "handle_tool_call E a tc = Inr a1" and c1: "chat_history a1 = chat_history a @ n1"
      and t1: "tool_turns n1 = [ToolTurn ''mock_id'' (tool_reply E (tools a) tc)]"
      by blast
    from handle_tool_call_fields [OF h] have same: "tools a1 = tools a" by simp
    from Cons.IH [of a1] obtain r b n2 where
      d: "dispatch E a1 calls = (r, b)" and c2: "chat_history b = chat_history a1 @ n2"
      and t2: "tool_turns n2 =
                 map (\<lambda>tc. ToolTurn ''mock_id'' (tool_reply E (tools a1) tc))
                   (takeWhile (\<lambda>tc. \<not> payload_raises E (tools a1) tc) calls)"
      and r: "r = None \<longleftrightarrow> \<not> list_ex (payload_raises E (tools a1)) calls"
      by blast
    from h d c1 c2 t1 t2 r False have
      "dispatch E a (tc # calls) = (r, b) \<and> chat_history b = chat_history a @ (n1 @ n2)
       \<and> tool_turns (n1 @ n2) =
           map (\<lambda>tc. ToolTurn ''mock_id'' (tool_reply E (tools a) tc))
             (takeWhile (\<lambda>tc. \<not> payload_raises E (tools a) tc) (tc # calls))
       \<and> (r = None \<longleftrightarrow> \<not> list_ex (payload_raises E (tools a)) (tc # calls))"
      by (simp add: same)
    then show ?thesis by blast
  qed
qed

lemma run_loop_goes_on:
  assumes "run_loop E n a = (out, b, posted)" and "i < length posted"
    and "agent_step E (a\<lparr>chat_history := posted ! i\<rparr>) = Continue c"
  shows "transcript_after posted b i = chat_history c
       \<and> (Suc i < length posted \<or> (out = Inr MaxSteps \<and> length posted = n))"
  using run_loop_steps [OF assms(1,2)] assms(3)
  by (auto simp: transcript_after_def split: if_splits sum.splits)

lemma run_loop_raises:
  assumes "run_loop E n a = (out, b, posted)" and "i < length posted"
    and "agent_step E (a\<lparr>chat_history := posted ! i\<rparr>) = Raise ex c"
  shows "transcript_after posted b i = chat_history c \<and> Suc i = length posted \<and> out = Inl ex"
  using run_loop_steps [OF assms(1,2)] assms(2,3)
  by (auto simp: transcript_after_def split: if_splits sum.splits)

text \<open>
  What a batch adds to the transcript before the next call, or before the run ends: one
  tool-result turn, in the order of the requests, for every request before the first
  whose payload makes \<open>json.loads\<close> raise. With such a request the run ends there, by
  the exception; without one it goes on.
\<close>

lemma batch_transcript:
  assumes "run E self task max_steps = (out, self', posted)"
    and "i < length posted"
    and "call_llm E (posted ! i) = ToolCalls calls"
  shows "\<exists>new. transcript_after posted self' i = posted ! i @ new
             \<and> tool_turns new =
                 map (\<lambda>tc. ToolTurn ''mock_id'' (tool_reply E (tools self) tc))
                   (takeWhile (\<lambda>tc. \<not> payload_raises E (tools self) tc) calls)
             \<and> (if list_ex (payload_raises E (tools self)) calls
                 then Suc i = length posted \<and> (\<exists>ex. out = Inl ex)
                 else Suc i < length posted
                      \<or> (out = Inr MaxSteps \<and> length posted = nat max_steps))"
proof -
  let ?a = "(start E self task)\<lparr>chat_history := posted ! i\<rparr>"
  from assms(1) have loop: "run_loop E (nat max_steps) (start E self task) = (out, self', posted)"
    by (simp add: run_start)
  from dispatch_history [of E ?a calls] obtain r b new where
    d: "dispatch E ?a calls = (r, b)" and c: "chat_history b = posted ! i @ new"
    and t: "tool_turns new =
              map (\<lambda>tc. ToolTurn ''mock_id'' (tool_reply E (tools self) tc))
                (takeWhile (\<lambda>tc. \<not> payload_raises E (tools self) tc) calls)"
    and r: "r = None \<longleftrightarrow> \<not> list_ex (payload_raises E (tools self)) calls"
    by auto
  show ?thesis
  proof (cases r)
    case None
    with d assms(3) have "agent_step E ?a = Continue b"
      by (simp add: agent_step_def)
    from run_loop_goes_on [OF loop assms(2) this] c t r None show ?thesis
      by auto
  next
    case (Some ex)
    with d assms(3) have "agent_step E ?a = Raise ex b"
      by (simp add: agent_step_def)
    from run_loop_raises [OF loop assms(2) this] c t r Some show ?thesis
      by auto
  qed
qed

text \<open>A run whose first batch begins with a request whose payload makes \<open>json.loads\<close> raise.\<close>

lemma run_first_request_raises:
  assumes "call_llm E (chat_history (start E self task)) = ToolCalls (tc # rest)"
    and "map_of (tools self) (tc_name tc) = Some t"
    and "json_loads E (tc_arguments tc) = LoadsRaises ex"
    and "0 < max_steps"
  shows "run E self task max_steps =
           (Inl ex, start E self task, [chat_history (start E self task)])"
proof -
  from assms(4) obtain k where k: "nat max_steps = Suc k"
    by (cases "nat max_steps") auto
  have "handle_tool_call E (start E self task) tc = Inl ex"
    using assms(2,3) by (simp add: handle_tool_call_def)
  with assms(1) have "agent_step E (start E self task) = Raise ex (start E self task)"
    by (simp add: agent_step_def)
  then show ?thesis
    by (simp add: run_start k)
qed

lemma scan_number_digits:
  "4300 < n \<Longrightarrow>
   scan_number (replicate n (CHR ''1'')) =
     Some (Inl (ValueError ''Exceeds the limit (4300 digits) for integer string conversion''), [])"
proof -
  assume n: "4300 < n"
  then obtain m where m: "n = Suc m" by (cases n) auto
  have d: "isdigit (CHR ''1'')"
    by (simp add: isdigit_def)
  have all: "takeWhile isdigit (replicate n (CHR ''1'')) = replicate n (CHR ''1'')"
    using d by (simp add: takeWhile_replicate)
  have minus: "\<not> startswith (replicate n (CHR ''1'')) ''-''"
    by (simp add: startswith_def m)
  have zero: "\<not> startswith (replicate n (CHR ''1'')) ''0''"
    by (simp add: startswith_def m)
  have ne: "replicate n (CHR ''1'') \<noteq> []"
    by (simp add: m)
  from n show ?thesis
    by (simp add: scan_number_def Let_def minus all zero ne d)
qed

lemma read_json_digits:
  "4300 < n \<Longrightarrow>
   read_json (replicate n (CHR ''1'')) =
     LoadsRaises (ValueError ''Exceeds the limit (4300 digits) for integer string conversion'')"
proof -
  assume n: "4300 < n"
  then obtain m where m: "n = Suc m" by (cases n) auto
  have ws: "skip_ws (replicate n (CHR ''1'')) = replicate n (CHR ''1'')"
    by (simp add: skip_ws_def m)
  have "parse_value (Suc (2 * n)) 0 (replicate n (CHR ''1'')) =
      Inl (Raised (ValueError ''Exceeds the limit (4300 digits) for integer string conversion''))"
    by (simp add: scan_number_digits [OF n]) (simp add: startswith_def isdigit_def m)
  then show ?thesis
    by (simp add: read_json_def ws)
qed

lemma parse_value_brackets:
  "nesting_limit - d = k \<Longrightarrow> d \<le> nesting_limit \<Longrightarrow> k < m \<Longrightarrow> 2 * k < fuel \<Longrightarrow>
   parse_value fuel d (replicate m (CHR ''['')) =
     Inl (Raised (RecursionError
       ''maximum recursion depth exceeded while decoding a JSON array from a unicode string''))"
proof (induction k arbitrary: d m fuel)
  case 0
  then obtain f m' where f: "fuel = Suc f" and m: "m = Suc m'"
    by (cases fuel, simp, cases m) auto
  from 0 have "nesting_limit \<le> d" by simp
  then show ?case
    by (simp add: f m startswith_def)
next
  case (Suc k)
  then obtain f m' where f: "fuel = Suc (Suc f)" and m: "m = Suc m'"
    and f': "2 * k < f" and m': "k < m'"
    by (cases fuel, simp, cases m, simp_all)
       (metis Suc_lessD less_Suc_eq_0_disj mult_Suc_right not_less_eq add_2_eq_Suc)
  from m' obtain m'' where m'': "m' = Suc m''" by (cases m') auto
  from Suc.prems have lt: "\<not> nesting_limit \<le> d" and d: "nesting_limit - Suc d = k"
    and le: "Suc d \<le> nesting_limit"
    by simp_all
  have ws: "skip_ws (replicate m' (CHR ''['')) = replicate m' (CHR ''['')"
    by (simp add: skip_ws_def m'')
  have inner: "parse_value f (Suc d) (replicate m' (CHR ''['')) =
      Inl (Raised (RecursionError
        ''maximum recursion depth exceeded while decoding a JSON array from a unicode string''))"
    by (rule Suc.IH [OF d le m' f'])
  have "parse_array (Suc f) (Suc d) [] (replicate m' (CHR ''['')) =
      Inl (Raised (RecursionError
        ''maximum recursion depth exceeded while decoding a JSON array from a unicode string''))"
    by (simp add: inner)
  with lt show ?case
    by (simp add: f m startswith_def ws Let_def) (simp add: m'')
qed

lemma read_json_brackets:
  "nesting_limit < m \<Longrightarrow>
   read_json (replicate m (CHR ''['')) =
     LoadsRaises (RecursionError
       ''maximum recursion depth exceeded while decoding a JSON array from a unicode string'')"
proof -
  assume m: "nesting_limit < m"
  then obtain m' where m': "m = Suc m'" by (cases m) auto
  have ws: "skip_ws (replicate m (CHR ''['')) = replicate m (CHR ''['')"
    by (simp add: skip_ws_def m')
  from m have "2 * nesting_limit < Suc (2 * m)" by simp
  from parse_value_brackets [of 0 nesting_limit m "Suc (2 * m)"] m this show ?thesis
    by (simp add: read_json_def ws)
qed

text \<open>
  C1. The claim fails on the code for a batch of two call requests of the registered
  tool \<open>sql_query\<close>, the first with an integer of 4301 digits as its payload:
  \<open>json.loads\<close> raises a \<open>ValueError\<close> on it, which is no \<open>JSONDecodeError\<close>; no \<open>except\<close>
  clause catches it, so it leaves \<open>run\<close> during the first iteration, after one call of
  the reasoning service, and the transcript holds no tool-result turn, neither for this
  request nor for the one after it.
\<close>

theorem batch_ends_at_raising_payload:
  "call_llm (world digits_service) (hd (snd (snd digits_run))) = ToolCalls [digits_call, good_call]
   \<and> fst digits_run =
       Inl (ValueError ''Exceeds the limit (4300 digits) for integer string conversion'')
   \<and> length (snd (snd digits_run)) = 1
   \<and> tool_turns (chat_history (fst (snd digits_run))) = []"
proof -
  let ?E = "world digits_service"
  let ?a = "start ?E sample_agent ''How many calls?''"
  have c: "call_llm ?E (chat_history ?a) = ToolCalls [digits_call, good_call]"
    by (simp add: call_llm_def world_def digits_service_def)
  have t: "map_of (tools sample_agent) (tc_name digits_call) = Some (sql_query_tool sample_db)"
    by (simp add: sample_agent_def ALL_TOOLS_def sql_query_tool_def digits_call_def)
  have l: "json_loads ?E (tc_arguments digits_call) =
      LoadsRaises (ValueError ''Exceeds the limit (4300 digits) for integer string conversion'')"
    by (simp add: world_def digits_call_def read_json_digits)
  have r: "run ?E sample_agent ''How many calls?'' 10 =
      (Inl (ValueError ''Exceeds the limit (4300 digits) for integer string conversion''),
       ?a, [chat_history ?a])"
    by (rule run_first_request_raises [OF c t l]) simp
  from r c show ?thesis
    by (simp add: digits_run_def)
qed

text \<open>
  C7. The claim fails on the code for a call request of the registered tool \<open>sql_query\<close>
  whose payload is 1000 opening brackets: the payload does not parse, \<open>json.loads\<close>
  raising a \<open>RecursionError\<close> on it, which is no \<open>JSONDecodeError\<close>; no \<open>except\<close> clause
  catches it, so \<open>run\<close> ends by this exception after one call of the reasoning service,
  and the transcript holds no turn that describes the failure.
\<close>

theorem unparsed_payload_ends_run:
  "json_loads (world brackets_service) (tc_arguments brackets_call) =
     LoadsRaises (RecursionError
       ''maximum recursion depth exceeded while decoding a JSON array from a unicode string'')
   \<and> call_llm (world brackets_service) (hd (snd (snd brackets_run))) =
       ToolCalls [brackets_call, good_call]
   \<and> run_result (world brackets_service) sample_agent ''How many calls?'' 10 =
       Inl (RecursionError
         ''maximum recursion depth exceeded while decoding a JSON array from a unicode string'')
   \<and> length (snd (snd brackets_run)) = 1
   \<and> ToolTurn ''mock_id''
         (tool_reply (world brackets_service) (tools sample_agent) brackets_call)
       \<notin> set (chat_history (fst (snd brackets_run)))"
proof -
  let ?E = "world brackets_service"
  let ?a = "start ?E sample_agent ''How many calls?''"
  let ?ex = "RecursionError
    ''maximum recursion depth exceeded while decoding a JSON array from a unicode string''"
  have c: "call_llm ?E (chat_history ?a) = ToolCalls [brackets_call, good_call]"
    by (simp add: call_llm_def world_def brackets_service_def)
  have t: "map_of (tools sample_agent) (tc_name brackets_call) = Some (sql_query_tool sample_db)"
    by (simp add: sample_agent_def ALL_TOOLS_def sql_query_tool_def brackets_call_def)
  have l: "json_loads ?E (tc_arguments brackets_call) = LoadsRaises ?ex"
    by (simp add: world_def brackets_call_def read_json_brackets nesting_limit_def)
  have r: "run ?E sample_agent ''How many calls?'' 10 = (Inl ?ex, ?a, [chat_history ?a])"
    by (rule run_first_request_raises [OF c t l]) simp
  have "tool_turns (chat_history ?a) = []"
    by simp
  then have none: "ToolTurn ''mock_id'' content \<notin> set (chat_history ?a)" for content
    by (auto simp: tool_turns_def filter_empty_conv)
  from r c l none show ?thesis
    by (simp add: brackets_run_def run_result_def)
qed

section \<open>The step budget\<close>

lemma run_loop_MaxSteps: "run_loop E n a = (Inr MaxSteps, b, posted) \<Longrightarrow> length posted = n"
proof (induction n arbitrary: a b posted)
  case 0
  then show ?case by simp
next
  case (Suc n)
  show ?case
  proof (cases "agent_step E a")
    case (Return out' a')
    with Suc.prems agent_step_fields(2) [OF Return] show ?thesis by auto
  next
    case (Raise ex a')
    with Suc.prems show ?thesis by auto
  next
    case (Continue a')
    obtain o1 b1 p1 where r: "run_loop E n a' = (o1, b1, p1)"
      by (cases "run_loop E n a'") auto
    with Suc.prems Continue have "posted = chat_history a # p1" "o1 = Inr MaxSteps" by simp_all
    with Suc.IH r show ?thesis by simp
  qed
qed

lemma run_loop_nothing_posted: "run_loop E n a = (out, b, []) \<Longrightarrow> out = Inr MaxSteps"
  by (cases n) (auto split: step.splits prod.splits)

lemma parse_llm_response_fst: "fst (parse_llm_response E a c) = fst (parse_llm_response E b c)"
  by (simp add: parse_llm_response_def Let_def
      split: option.splits list.splits loads_result.splits sum.splits)

lemma agent_step_no_return:
  assumes "(\<exists>calls. call_llm E (chat_history a) = ToolCalls calls)
         \<or> (\<exists>c. call_llm E (chat_history a) = TextResponse c
                \<and> (\<forall>ans. fst (parse_llm_response E a c) \<noteq> Inr (FinalAnswer ans)))"
  shows "agent_step E a \<noteq> Return r b"
  using assms
  by (auto simp: agent_step_def
      split: llm_response.splits prod.splits parsed.splits sum.splits option.splits)

lemma agent_step_goes_on:
  assumes "(\<exists>calls. call_llm E (chat_history a) = ToolCalls calls
                   \<and> \<not> list_ex (payload_raises E (tools a)) calls)
         \<or> (\<exists>c p. call_llm E (chat_history a) = TextResponse c
                  \<and> fst (parse_llm_response E a c) = Inr p \<and> (\<forall>ans. p \<noteq> FinalAnswer ans))"
  shows "\<exists>b. agent_step E a = Continue b"
  using assms
proof (elim disjE exE conjE)
  fix calls
  assume c: "call_llm E (chat_history a) = ToolCalls calls"
    and n: "\<not> list_ex (payload_raises E (tools a)) calls"
  from dispatch_history [of E a calls] n obtain b where "dispatch E a calls = (None, b)"
    by auto
  with c show ?thesis by (simp add: agent_step_def)
next
  fix c p
  assume "call_llm E (chat_history a) = TextResponse c"
    and "fst (parse_llm_response E a c) = Inr p" and "\<forall>ans. p \<noteq> FinalAnswer ans"
  then show ?thesis
    by (cases "parse_llm_response E a c"; cases p) (auto simp: agent_step_def)
qed

text \<open>
  C2. A run with step budget \<open>N\<close> (10 when none is given) calls the reasoning service at
  most \<open>N\<close> times, and not at all when \<open>N\<close> is below one. A run that ends because the
  budget is used up has made exactly \<open>N\<close> calls and returns the fixed message; this is
  how a run ends in which every response was a batch of call requests, of any size, on
  whose payloads \<open>json.loads\<close> does not raise, or a text that is interpreted and is no
  final answer: a batch takes one unit of the budget, whatever the number of its
  requests. A run in which every response was a batch or a text that is no final answer
  ends in no other way than this one or by an exception.
\<close>

theorem step_budget:
  assumes "run E self task max_steps = (out, self', posted)"
  shows "length posted \<le> nat max_steps
       \<and> length (snd (snd (run_default E self task))) \<le> 10
       \<and> (0 \<le> max_steps \<longrightarrow> int (length posted) \<le> max_steps)
       \<and> (out = Inr MaxSteps \<longrightarrow>
            length posted = nat max_steps
            \<and> run_result E self task max_steps =
                Inr ''Max steps reached without providing a final answer.'')
       \<and> ((\<forall>i<length posted.
              (\<exists>calls. call_llm E (posted ! i) = ToolCalls calls
                       \<and> \<not> list_ex (payload_raises E (tools self)) calls)
              \<or> (\<exists>c p. call_llm E (posted ! i) = TextResponse c
                       \<and> fst (parse_llm_response E self c) = Inr p
                       \<and> (\<forall>ans. p \<noteq> FinalAnswer ans)))
            \<longrightarrow> out = Inr MaxSteps)
       \<and> ((\<forall>i<length posted.
              (\<exists>calls. call_llm E (posted ! i) = ToolCalls calls)
              \<or> (\<exists>c. call_llm E (posted ! i) = TextResponse c
                     \<and> (\<forall>ans. fst (parse_llm_response E self c) \<noteq> Inr (FinalAnswer ans))))
            \<longrightarrow> out = Inr MaxSteps \<or> (\<exists>ex. out = Inl ex))"
proof -
  from assms have loop: "run_loop E (nat max_steps) (start E self task) = (out, self', posted)"
    by (simp add: run_start)
  have bound: "length posted \<le> nat max_steps"
    using run_loop_length [OF loop] .
  have exhausted: "length posted = nat max_steps
        \<and> run_result E self task max_steps =
            Inr ''Max steps reached without providing a final answer.''"
    if "out = Inr MaxSteps"
    using that loop run_loop_MaxSteps [of E "nat max_steps" "start E self task" self' posted] assms
    by (simp add: run_result_def)
  have fst_eq: "fst (parse_llm_response E ((start E self task)\<lparr>chat_history := h\<rparr>) c)
      = fst (parse_llm_response E self c)" for h c
    by (rule parse_llm_response_fst)
  have goes_on: "out = Inr MaxSteps"
    if all: "\<forall>i<length posted.
              (\<exists>calls. call_llm E (posted ! i) = ToolCalls calls
                       \<and> \<not> list_ex (payload_raises E (tools self)) calls)
              \<or> (\<exists>c p. call_llm E (posted ! i) = TextResponse c
                       \<and> fst (parse_llm_response E self c) = Inr p
                       \<and> (\<forall>ans. p \<noteq> FinalAnswer ans))"
  proof (cases "posted = []")
    case True
    with loop run_loop_nothing_posted show ?thesis by blast
  next
    case False
    let ?i = "length posted - 1"
    let ?a = "(start E self task)\<lparr>chat_history := posted ! ?i\<rparr>"
    from False have i: "?i < length posted" by simp
    with all have "(\<exists>calls. call_llm E (chat_history ?a) = ToolCalls calls
                   \<and> \<not> list_ex (payload_raises E (tools ?a)) calls)
         \<or> (\<exists>c p. call_llm E (chat_history ?a) = TextResponse c
                  \<and> fst (parse_llm_response E ?a c) = Inr p \<and> (\<forall>ans. p \<noteq> FinalAnswer ans))"
      by (simp add: fst_eq)
    from agent_step_goes_on [OF this] obtain c where "agent_step E ?a = Continue c" by blast
    with run_loop_steps [OF loop i] i show ?thesis
      by (auto split: if_splits sum.splits)
  qed
  have no_answer: "out = Inr MaxSteps \<or> (\<exists>ex. out = Inl ex)"
    if all: "\<forall>i<length posted.
              (\<exists>calls. call_llm E (posted ! i) = ToolCalls calls)
              \<or> (\<exists>c. call_llm E (posted ! i) = TextResponse c
                     \<and> (\<forall>ans. fst (parse_llm_response E self c) \<noteq> Inr (FinalAnswer ans)))"
  proof (cases "posted = []")
    case True
    with loop run_loop_nothing_posted show ?thesis by blast
  next
    case False
    let ?i = "length posted - 1"
    let ?a = "(start E self task)\<lparr>chat_history := posted ! ?i\<rparr>"
    from False have i: "?i < length posted" by simp
    with all have "(\<exists>calls. call_llm E (chat_history ?a) = ToolCalls calls)
         \<or> (\<exists>c. call_llm E (chat_history ?a) = TextResponse c
                \<and> (\<forall>ans. fst (parse_llm_response E ?a c) \<noteq> Inr (FinalAnswer ans)))"
      by (simp add: fst_eq)
    from agent_step_no_return [OF this] have "agent_step E ?a \<noteq> Return r b" for r b .
    with run_loop_steps [OF loop i] i show ?thesis
      by (auto split: if_splits sum.splits)
  qed
  have "length (snd (snd (run_default E self task))) \<le> nat 10"
    using run_loop_length [of E "nat 10" "start E self task"]
    by (cases "run_loop E (nat 10) (start E self task)") (simp add: run_default_def run_start)
  then have by_default: "length (snd (snd (run_default E self task))) \<le> 10"
    by simp
  from bound by_default exhausted goes_on no_answer show ?thesis by auto
qed

theorem step_budget_witness:
  "fst busy_run = Inr MaxSteps
   \<and> run_result (world busy_service) sample_agent ''How many calls?'' 2 =
       Inr ''Max steps reached without providing a final answer.''
   \<and> length (snd (snd busy_run)) = 2
   \<and> length (tool_turns (chat_history (fst (snd busy_run)))) = 6"
proof -
  let ?E = "world busy_service"
  let ?posted = "snd (snd busy_run)"
  have r: "run ?E sample_agent ''How many calls?'' 2 = (fst busy_run, fst (snd busy_run), ?posted)"
    by (simp add: busy_run_def)
  have c: "call_llm ?E h = ToolCalls sample_calls" for h
    by (simp add: call_llm_def world_def busy_service_def sample_calls_def)
  have n: "\<not> list_ex (payload_raises ?E (tools sample_agent)) sample_calls"
    by code_simp
  have six: "length (tool_turns (chat_history (fst (snd busy_run)))) = 6"
    by code_simp
  from step_budget [OF r] c n have out: "fst busy_run = Inr MaxSteps" by blast
  with step_budget [OF r] have "length ?posted = 2
      \<and> run_result ?E sample_agent ''How many calls?'' 2 =
          Inr ''Max steps reached without providing a final answer.''"
    by simp
  with out six show ?thesis by simp
qed

section \<open>Observations\<close>

text \<open>
  C3, as the claim states it, fails: a table of one row whose cell holds 2100 characters
  renders to more than 2000 characters, its first five rows are the whole table, and the
  observation is that rendering followed by the notice, longer than 2000 characters
  plus the notice.
\<close>

theorem observation_bound_counterexample:
  "\<not> length (observation (world busy_service) (sql_query_tool sample_db) notes_query)
       \<le> 2000 + length truncation_notice"
  by code_simp

text \<open>
  C3, amended. The observation of a table whose rendering is longer than 2000 characters
  is the rendering of its first five rows followed by the truncation notice, of whatever
  length that rendering is; the observation of any other table is its rendering, of at
  most 2000 characters; a result that is no table is turned into text as it is.
\<close>

theorem observation_format:
  "(run_with_args t tool_args = Inr (PyObject txt) \<longrightarrow> observation E t tool_args = txt)
   \<and> (run_with_args t tool_args = Inr (DataFrame df) \<and> to_markdown E df = Inr md \<longrightarrow>
        (length md \<le> 2000 \<longrightarrow>
           observation E t tool_args = md \<and> length (observation E t tool_args) \<le> 2000)
        \<and> (2000 < length md \<and> to_markdown E (head 5 df) = Inr md5 \<longrightarrow>
             observation E t tool_args = md5 @ truncation_notice
             \<and> length (observation E t tool_args) = length md5 + 60))
   \<and> rows (head 5 df) = take 5 (rows df) \<and> columns (head 5 df) = columns df"
  by (simp add: observation_def head_def truncation_notice_def)

theorem observation_format_witness:
  "observation (world busy_service) (sql_query_tool sample_db) long_query =
     pipe_table (head 5 long_frame) @ truncation_notice
   \<and> length (rows long_frame) = 7 \<and> length (rows (head 5 long_frame)) = 5
   \<and> pipe_table (head 5 long_frame) \<noteq> pipe_table long_frame
   \<and> length (pipe_table (head 5 long_frame)) \<le> 2000
   \<and> observation (world busy_service) (sql_query_tool sample_db) notes_query =
       pipe_table notes_frame @ truncation_notice
   \<and> observation (world busy_service) (sql_query_tool sample_db) id_query =
       ''| call_id   |\<newline>|:----------|\<newline>| 1         |''"
proof -
  let ?E = "world busy_service"
  let ?t = "sql_query_tool sample_db"
  let ?small = "\<lparr>columns = [''call_id''], rows = [[''1'']]\<rparr>"
  let ?md = "''| call_id   |\<newline>|:----------|\<newline>| 1         |''"
  have r0: "run_with_args ?t long_query = Inr (DataFrame long_frame)"
    by code_simp
  have m0: "to_markdown ?E long_frame = Inr (pipe_table long_frame)"
    by (simp add: world_def)
  have l0: "2000 < length (pipe_table long_frame)"
    by code_simp
  have h0: "to_markdown ?E (head 5 long_frame) = Inr (pipe_table (head 5 long_frame))"
    by (simp add: world_def)
  have n7: "length (rows long_frame) = 7"
    by (simp add: long_frame_def)
  have s5: "length (pipe_table (head 5 long_frame)) \<le> 2000"
    by code_simp
  have r1: "run_with_args ?t notes_query = Inr (DataFrame notes_frame)"
    by code_simp
  have m1: "to_markdown ?E notes_frame = Inr (pipe_table notes_frame)"
    by (simp add: world_def)
  have l1: "2000 < length (pipe_table notes_frame)"
    by code_simp
  have h1: "to_markdown ?E (head 5 notes_frame) = Inr (pipe_table notes_frame)"
    by (simp add: world_def head_def notes_frame_def)
  have r2: "run_with_args ?t id_query = Inr (DataFrame ?small)"
    by code_simp
  have m2: "to_markdown ?E ?small = Inr ?md"
    by code_simp
  have l2: "length ?md \<le> 2000"
    by simp
  from observation_format [of ?t long_query _ ?E long_frame "pipe_table long_frame"
      "pipe_table (head 5 long_frame)"] r0 m0 l0 h0 n7
  have 0: "observation ?E ?t long_query = pipe_table (head 5 long_frame) @ truncation_notice
      \<and> length (rows (head 5 long_frame)) = 5"
    by simp
  from l0 s5 have d: "pipe_table (head 5 long_frame) \<noteq> pipe_table long_frame"
    by auto
  from observation_format [of ?t notes_query _ ?E notes_frame "pipe_table notes_frame"
      "pipe_table notes_frame"] r1 m1 l1 h1
  have 1: "observation ?E ?t notes_query = pipe_table notes_frame @ truncation_notice"
    by simp
  from observation_format [of ?t id_query _ ?E ?small ?md] r2 m2 l2
  have 2: "observation ?E ?t id_query = ?md"
    by simp
  from 0 1 2 n7 s5 d show ?thesis by simp
qed

text \<open>
  C8, as the claim states it, fails: \<open>Tool.run\<close> on arguments that do not validate does
  not return a value, it raises a \<open>ValueError\<close>.
\<close>

theorem tool_run_raises_counterexample:
  "Tool_run (sql_query_tool sample_db) [] =
     Inl (ValueError
            ''Tool 'sql_query' argument validation failed: 1 validation error for SQLQueryParams\<newline>query\<newline>  Field required'')"
  by code_simp

text \<open>
  C8, amended. \<open>Tool.run\<close> on arguments that fail the validation of the schema raises a
  \<open>ValueError\<close> that names the tool and carries the text of the validation error; the
  loop over the batch catches it and appends the tool-result turn "Tool execution
  failed: ..." with that text, for every agent with the same tools. So the turn is in
  the transcript after the batch for every request that the loop comes to, which is
  every request with no request before it in the batch on whose payload \<open>json.loads\<close>
  raises; and when there is no such request in the batch at all, the run goes on: to the
  next call of the reasoning service or, the budget used up, to the end of a run out of
  steps.
\<close>

theorem validation_failure_is_reported:
  assumes "run E self task max_steps = (out, self', posted)"
    and "i < length posted"
    and "call_llm E (posted ! i) = ToolCalls calls"
    and "tc \<in> set (takeWhile (\<lambda>c. \<not> payload_raises E (tools self) c) calls)"
    and "map_of (tools self) (tc_name tc) = Some t"
    and "json_loads E (tc_arguments tc) = Loaded (JObject kwargs)"
    and "''self'' \<notin> set (map fst kwargs)"
    and "args_schema t = Some schema"
    and "schema kwargs = Inl (ValidationError e)"
  shows "Tool_run t kwargs =
           Inl (ValueError (''Tool '' @ quoted (name t) @ '' argument validation failed: '' @ e))
       \<and> (\<forall>a. tools a = tools self \<longrightarrow>
            handle_tool_call E a tc =
              Inr (append_turn
                     (ToolTurn ''mock_id''
                        (''Tool execution failed: Tool '' @ quoted (name t)
                         @ '' argument validation failed: '' @ e))
                     (append_turn
                        (AssistantToolCall ''mock_id'' (tc_name tc) (tc_arguments tc)) a)))
       \<and> ToolTurn ''mock_id''
           (''Tool execution failed: Tool '' @ quoted (name t)
            @ '' argument validation failed: '' @ e)
           \<in> set (drop (length (posted ! i)) (transcript_after posted self' i))
       \<and> (\<not> list_ex (payload_raises E (tools self)) calls \<longrightarrow>
            Suc i < length posted \<or> (out = Inr MaxSteps \<and> length posted = nat max_steps))"
proof -
  from batch_transcript [OF assms(1,2,3)] obtain new where
    after: "transcript_after posted self' i = posted ! i @ new"
    and turns: "tool_turns new =
                  map (\<lambda>tc. ToolTurn ''mock_id'' (tool_reply E (tools self) tc))
                    (takeWhile (\<lambda>c. \<not> payload_raises E (tools self) c) calls)"
    and on: "\<not> list_ex (payload_raises E (tools self)) calls \<longrightarrow>
               Suc i < length posted \<or> (out = Inr MaxSteps \<and> length posted = nat max_steps)"
    by (auto split: if_splits)
  from assms(4) turns have "ToolTurn ''mock_id'' (tool_reply E (tools self) tc) \<in> set (tool_turns new)"
    by simp
  then have mem: "ToolTurn ''mock_id'' (tool_reply E (tools self) tc) \<in> set new"
    by (simp add: tool_turns_def)
  have raised: "Tool_run t kwargs =
      Inl (ValueError (''Tool '' @ quoted (name t) @ '' argument validation failed: '' @ e))"
    using assms(8,9) by (simp add: Tool_run_def validation_failed_def)
  have obs: "observation E t (JObject kwargs) =
      ''Tool execution failed: Tool '' @ quoted (name t) @ '' argument validation failed: '' @ e"
    using raised assms(7) by (simp add: observation_def run_with_args_def execution_failed_def)
  with assms(5,6) have reply: "tool_reply E (tools self) tc =
      ''Tool execution failed: Tool '' @ quoted (name t) @ '' argument validation failed: '' @ e"
    by (simp add: tool_reply_def)
  have handled: "handle_tool_call E a tc =
      Inr (append_turn
             (ToolTurn ''mock_id''
                (''Tool execution failed: Tool '' @ quoted (name t)
                 @ '' argument validation failed: '' @ e))
             (append_turn (AssistantToolCall ''mock_id'' (tc_name tc) (tc_arguments tc)) a))"
    if "tools a = tools self" for a
    using that assms(5,6) obs by (simp add: handle_tool_call_def)
  from mem after on raised reply handled show ?thesis by simp
qed

theorem validation_failure_witness:
  "ToolTurn ''mock_id''
     ''Tool execution failed: Tool 'sql_query' argument validation failed: 1 validation error for SQLQueryParams\<newline>query\<newline>  Field required''
     \<in> set (drop 2 (transcript_after (snd (snd invalid_run)) (fst (snd invalid_run)) 0))
   \<and> length (snd (snd invalid_run)) = 2
   \<and> fst invalid_run = Inr (Answer ''42'')"
proof -
  let ?E = "world invalid_service"
  let ?posted = "snd (snd invalid_run)"
  let ?b = "fst (snd invalid_run)"
  let ?t = "sql_query_tool sample_db"
  let ?e = "''1 validation error for SQLQueryParams\<newline>query\<newline>  Field required''"
  have r: "run ?E sample_agent ''How many calls?'' 10 = (fst invalid_run, ?b, ?posted)"
    by (simp add: invalid_run_def)
  have n: "length ?posted = 2"
    by code_simp
  have l: "length (?posted ! 0) = 2"
    by code_simp
  have a: "fst invalid_run = Inr (Answer ''42'')"
    by code_simp
  from n have i: "0 < length ?posted" by simp
  have c: "call_llm ?E (?posted ! 0) = ToolCalls [invalid_call]"
    using l by (simp add: call_llm_def world_def invalid_service_def)
  have p: "\<not> payload_raises ?E (tools sample_agent) invalid_call"
    by code_simp
  then have m: "invalid_call \<in> set (takeWhile (\<lambda>c. \<not> payload_raises ?E (tools sample_agent) c)
                                     [invalid_call])"
    by simp
  have some: "map_of (tools sample_agent) (tc_name invalid_call) = Some ?t"
    by (simp add: sample_agent_def ALL_TOOLS_def sql_query_tool_def invalid_call_def)
  have args: "json_loads ?E (tc_arguments invalid_call) = Loaded (JObject [])"
    by code_simp
  have k: "''self'' \<notin> set (map fst ([] :: dict))"
    by simp
  have s: "args_schema ?t = Some SQLQueryParams"
    by (simp add: sql_query_tool_def)
  have v: "SQLQueryParams [] = Inl (ValidationError ?e)"
    by (simp add: SQLQueryParams_def str_field_model_def)
  have nm: "name ?t = ''sql_query''"
    by (simp add: sql_query_tool_def)
  from validation_failure_is_reported [OF r i c m some args k s v] n a show ?thesis
    unfolding l nm by (simp add: quoted_def)
qed

section \<open>The interpreter\<close>

lemma lower_chr_space: "isspace c \<Longrightarrow> lower_chr c = c"
  by (auto simp: isspace_def lower_chr_def Let_def)

lemma not_space_lower: "\<not> isspace (lower_chr c) \<Longrightarrow> \<not> isspace c"
  using lower_chr_space [of c] by auto

lemma strip_keeps_prefix:
  assumes "m \<noteq> []" and "\<not> isspace (hd m)" and "\<not> isspace (last m)"
  shows "\<exists>u. strip (m @ t) = m @ u"
proof -
  from assms(1,2) have front: "dropWhile isspace (m @ t) = m @ t"
    by (cases m) simp_all
  from assms(1,3) have "\<not> isspace (hd (rev m))"
    by (simp add: hd_rev)
  with assms(1) have rear: "dropWhile isspace (rev m) = rev m"
    by (cases "rev m") simp_all
  have "\<exists>v. dropWhile isspace (rev t @ rev m) = v @ rev m"
  proof (cases "\<forall>x\<in>set (rev t). isspace x")
    case True
    then have "dropWhile isspace (rev t @ rev m) = [] @ rev m"
      using rear by (simp add: dropWhile_append)
    then show ?thesis by blast
  next
    case False
    then have "dropWhile isspace (rev t @ rev m) = dropWhile isspace (rev t) @ rev m"
      by (auto simp: dropWhile_append)
    then show ?thesis by blast
  qed
  then obtain v where "dropWhile isspace (rev t @ rev m) = v @ rev m" by blast
  with front have "strip (m @ t) = m @ rev v"
    by (simp add: strip_def)
  then show ?thesis by blast
qed

text \<open>
  A response that begins with the marker itself, in any case of its letters, is a final
  answer whose content is the stripped text after the marker.
\<close>

lemma final_answer_at_start:
  assumes "lower m = ''final answer:''"
  shows "fst (parse_llm_response E self (m @ rest)) = Inr (FinalAnswer (strip rest))"
proof -
  have len: "length m = 13"
    using arg_cong [OF assms, of length] by (simp add: lower_def)
  then have ne: "m \<noteq> []" by auto
  have "lower_chr (hd m) = CHR ''f''"
    using arg_cong [OF assms, of hd] ne by (simp add: lower_def hd_map)
  then have h: "\<not> isspace (hd m)"
    using not_space_lower [of "hd m"] by (simp add: isspace_def)
  have "lower_chr (last m) = CHR '':''"
    using arg_cong [OF assms, of last] ne by (simp add: lower_def last_map)
  then have l: "\<not> isspace (last m)"
    using not_space_lower [of "last m"] by (simp add: isspace_def)
  from strip_keeps_prefix [OF ne h l] obtain u where u: "strip (m @ rest) = m @ u" by blast
  have "lower (m @ u) = lower m @ lower u"
    by (simp add: lower_def)
  with assms u have low: "lower (strip (m @ rest)) = ''final answer:'' @ lower u"
    by simp
  show ?thesis
    by (simp add: parse_llm_response_def Let_def low startswith_def len)
qed

text \<open>
  C4 at the input that breaks it: after two blanks the response is still classified as a
  final answer, but its first 13 characters are cut off, not the marker, and the
  content is \<open>r: 42\<close>; the run returns that. Without the blanks the content is \<open>42\<close>.
\<close>

theorem final_answer_after_blanks:
  "fst (parse_llm_response E self ''  Final Answer: 42'') = Inr (FinalAnswer ''r: 42'')
   \<and> fst (parse_llm_response E self ''Final Answer: 42'') = Inr (FinalAnswer ''42'')
   \<and> run_result (world indented_service) sample_agent ''How many calls?'' 10 = Inr ''r: 42''
   \<and> run_result (world plain_service) sample_agent ''How many calls?'' 10 = Inr ''42''"
proof -
  have a: "lower (strip ''  Final Answer: 42'') = ''final answer: 42''"
    by code_simp
  have b: "strip ''r: 42'' = ''r: 42''"
    by code_simp
  have 1: "fst (parse_llm_response E self ''  Final Answer: 42'') = Inr (FinalAnswer ''r: 42'')"
    by (simp add: parse_llm_response_def Let_def a b startswith_def)
  have "lower ''Final Answer:'' = ''final answer:''"
    by code_simp
  moreover have "strip '' 42'' = ''42''"
    by code_simp
  ultimately have 2: "fst (parse_llm_response E self ''Final Answer: 42'') = Inr (FinalAnswer ''42'')"
    using final_answer_at_start [of "''Final Answer:''" E self "'' 42''"] by simp
  have 3: "run_result (world indented_service) sample_agent ''How many calls?'' 10 = Inr ''r: 42''"
    by code_simp
  have 4: "run_result (world plain_service) sample_agent ''How many calls?'' 10 = Inr ''42''"
    by code_simp
  from 1 2 3 4 show ?thesis by simp
qed

section \<open>Actions written as text\<close>

lemma first_match_found:
  assumes "lo \<le> n" and "n \<le> hi" and "f n = Some r"
    and "\<forall>k. n < k \<and> k \<le> hi \<longrightarrow> f k = None"
  shows "first_match f lo hi = Some r"
  using assms
proof (induction "hi - n" arbitrary: hi)
  case 0
  then have "hi = n" by simp
  with 0 show ?case by (simp add: first_match.simps)
next
  case (Suc d)
  then have gt: "n < hi" by simp
  with Suc.prems have none: "f hi = None" by simp
  have "first_match f lo (hi - 1) = Some r"
  proof (rule Suc.hyps(1))
    show "d = hi - 1 - n" using Suc.hyps(2) by simp
    show "lo \<le> n" by (rule Suc.prems(1))
    show "n \<le> hi - 1" using gt by simp
    show "f n = Some r" by (rule Suc.prems(3))
    show "\<forall>k. n < k \<and> k \<le> hi - 1 \<longrightarrow> f k = None"
    proof (intro allI impI)
      fix k
      assume "n < k \<and> k \<le> hi - 1"
      then have "n < k \<and> k \<le> hi" by arith
      with Suc.prems(4) show "f k = None" by blast
    qed
  qed
  with none gt Suc.prems(1) show ?case
    by (subst first_match.simps) simp
qed

lemma first_match_top: "lo \<le> hi \<Longrightarrow> f hi = Some r \<Longrightarrow> first_match f lo hi = Some r"
  by (subst first_match.simps) simp

lemma rmatch_letters:
  "length m = length p \<Longrightarrow> map lower_chr m = map lower_chr p \<Longrightarrow>
   rmatch (map lit_ic p @ R) (m @ s) = rmatch R s"
proof (induction p arbitrary: m)
  case Nil
  then show ?case by simp
next
  case (Cons c p)
  then obtain x m' where m: "m = x # m'" by (cases m) auto
  with Cons.prems have "lower_chr x = lower_chr c" "length m' = length p"
    "map lower_chr m' = map lower_chr p"
    by simp_all
  with Cons.IH [of m'] m show ?case
    by (simp add: lit_ic_def option.map_ident)
qed

lemma word_not_space: "isword c \<Longrightarrow> \<not> isspace c"
  by (auto simp: isword_def isspace_def Let_def)

lemma rmatch_lit_miss:
  assumes "j \<le> length (takeWhile P xs)" and "c \<notin> set (takeWhile P xs)" and "P c"
  shows "rmatch [lit c] (drop j xs) = None"
proof (cases "drop j xs")
  case Nil
  then show ?thesis by (simp add: lit_def)
next
  case (Cons x r)
  then have j: "j < length xs" by (cases "j < length xs") simp_all
  with Cons have x: "x = xs ! j"
    by (metis Cons_nth_drop_Suc list.inject)
  have "x \<noteq> c"
  proof (cases "j < length (takeWhile P xs)")
    case True
    then have "xs ! j = takeWhile P xs ! j"
      by (simp add: takeWhile_nth)
    with True have "xs ! j \<in> set (takeWhile P xs)"
      by (metis nth_mem)
    with assms(2) x show ?thesis by auto
  next
    case False
    with assms(1) have "j = length (takeWhile P xs)" by simp
    with j have "\<not> P (xs ! j)"
      by (simp add: nth_length_takeWhile)
    with assms(3) x show ?thesis by auto
  qed
  with Cons show ?thesis by (simp add: lit_def)
qed

text \<open>
  The pattern on a text of the shape it is written for: the marker in any case, blanks,
  a name of word characters, and parentheses around arguments on one line, the closing
  one being the last on its line.
\<close>

lemma action_re_shape:
  assumes "lower m = ''action:''"
    and "list_all isspace ws"
    and "tool_name \<noteq> []" and "list_all isword tool_name"
    and "CHR ''\<newline>'' \<notin> set args_str"
    and "CHR '')'' \<notin> set (takeWhile (\<lambda>c. c \<noteq> CHR ''\<newline>'') rest)"
  shows "rmatch action_re (m @ ws @ tool_name @ ''('' @ args_str @ '')'' @ rest) =
           Some [tool_name, args_str]"
proof -
  let ?dot = "\<lambda>c. c \<noteq> CHR ''\<newline>''"
  let ?s4 = "args_str @ CHR '')'' # rest"
  let ?R1 = "[\<lparr>cls = ?dot, rep = Star, cap = True\<rparr>, lit (CHR '')'')]"
  let ?R2 = "lit (CHR ''('') # ?R1"
  let ?R3 = "\<lparr>cls = isword, rep = Plus, cap = True\<rparr> # ?R2"
  let ?R4 = "\<lparr>cls = isspace, rep = Star, cap = False\<rparr> # ?R3"
  let ?f = "\<lambda>n. map_option (\<lambda>gs. take n ?s4 # gs) (rmatch [lit (CHR '')'')] (drop n ?s4))"
  have line: "takeWhile ?dot ?s4 = args_str @ CHR '')'' # takeWhile ?dot rest"
  proof -
    from assms(5) have "\<And>x. x \<in> set args_str \<Longrightarrow> ?dot x" by auto
    then have "takeWhile ?dot (args_str @ CHR '')'' # rest) =
        args_str @ takeWhile ?dot (CHR '')'' # rest)"
      by (rule takeWhile_append2)
    then show ?thesis by simp
  qed
  have hit: "?f (length args_str) = Some [args_str]"
    by (simp add: lit_def)
  have miss: "?f k = None" if "length args_str < k" and "k \<le> length (takeWhile ?dot ?s4)" for k
  proof -
    from that have "k - Suc (length args_str) \<le> length (takeWhile ?dot rest)"
      by (simp add: line)
    from rmatch_lit_miss [OF this assms(6)]
    have "rmatch [lit (CHR '')'')] (drop (k - Suc (length args_str)) rest) = None"
      by simp
    moreover from that have "drop k ?s4 = drop (k - Suc (length args_str)) rest"
      by (simp add: drop_Cons')
    ultimately show ?thesis by simp
  qed
  have "first_match ?f 0 (length (takeWhile ?dot ?s4)) = Some [args_str]"
  proof (rule first_match_found [where n = "length args_str"])
    show "0 \<le> length args_str" by simp
    show "length args_str \<le> length (takeWhile ?dot ?s4)" by (simp add: line)
    show "?f (length args_str) = Some [args_str]" by (rule hit)
    show "\<forall>k. length args_str < k \<and> k \<le> length (takeWhile ?dot ?s4) \<longrightarrow> ?f k = None"
      using miss by blast
  qed
  then have r1: "rmatch ?R1 ?s4 = Some [args_str]"
    by simp
  then have r2: "rmatch ?R2 (CHR ''('' # ?s4) = Some [args_str]"
    by (simp add: lit_def option.map_ident)
  have not_word: "\<not> isword (CHR ''('')"
    by (simp add: isword_def)
  have name: "takeWhile isword (tool_name @ CHR ''('' # ?s4) = tool_name"
    using assms(4) not_word by (simp add: takeWhile_tail list_all_iff)
  let ?g = "\<lambda>n. map_option (\<lambda>gs. take n (tool_name @ CHR ''('' # ?s4) # gs)
                   (rmatch ?R2 (drop n (tool_name @ CHR ''('' # ?s4)))"
  have g: "?g (length tool_name) = Some [tool_name, args_str]"
    using r2 by simp
  have "1 \<le> length tool_name"
    using assms(3) by (cases tool_name) simp_all
  then have "first_match ?g 1 (length tool_name) = Some [tool_name, args_str]"
    using g by (rule first_match_top)
  then have r3: "rmatch ?R3 (tool_name @ CHR ''('' # ?s4) = Some [tool_name, args_str]"
    by (simp add: name)
  from assms(3,4) have "\<not> isspace (hd tool_name)"
    by (cases tool_name) (simp_all add: word_not_space)
  with assms(2,3) have blanks: "takeWhile isspace (ws @ tool_name @ CHR ''('' # ?s4) = ws"
    by (cases tool_name) (simp_all add: takeWhile_tail list_all_iff)
  let ?h = "\<lambda>n. map_option (\<lambda>gs. gs) (rmatch ?R3 (drop n (ws @ tool_name @ CHR ''('' # ?s4)))"
  have h: "?h (length ws) = Some [tool_name, args_str]"
    using r3 by (simp add: option.map_ident)
  have "first_match ?h 0 (length ws) = Some [tool_name, args_str]"
    using h by (intro first_match_top) simp_all
  then have r4: "rmatch ?R4 (ws @ tool_name @ CHR ''('' # ?s4) = Some [tool_name, args_str]"
    by (simp add: blanks)
  have "map lower_chr ''Action:'' = ''action:''"
    by code_simp
  with assms(1) have "map lower_chr m = map lower_chr ''Action:''"
    by (simp add: lower_def)
  moreover from this have "length m = length ''Action:''"
    by (metis length_map)
  ultimately have "rmatch (map lit_ic ''Action:'' @ ?R4) (m @ ws @ tool_name @ CHR ''('' # ?s4) =
      rmatch ?R4 (ws @ tool_name @ CHR ''('' # ?s4)"
    by (rule rmatch_letters [rotated])
  with r4 show ?thesis
    by (simp add: action_re_def)
qed

lemma key_value_args_pairs:
  "list_all (\<lambda>p. CHR ''='' \<in> set p \<longrightarrow>
               \<not> loads_raises loads (strip (drop 1 (dropWhile (\<lambda>x. x \<noteq> CHR ''='') p))))
     pieces \<Longrightarrow>
   key_value_args loads pieces args =
     Inr (foldl (\<lambda>d (k, v). AList.update k v d) args (key_value_pairs loads pieces))"
  by (induction pieces arbitrary: args)
     (auto simp: key_value_pairs_def literal_or_text_def split_once_def loads_raises_def
        split: loads_result.splits)

text \<open>
  A response with the marker at its very start, a name, and arguments between
  parentheses on one line, on none of whose texts \<open>json.loads\<close> raises another
  exception than \<open>JSONDecodeError\<close>, is an action with that name and with the arguments
  the specification describes.
\<close>

lemma action_at_start:
  assumes "lower m = ''action:''"
    and "list_all isspace ws"
    and "tool_name \<noteq> []" and "list_all isword tool_name"
    and "CHR ''\<newline>'' \<notin> set args_str"
    and "CHR '')'' \<notin> set (takeWhile (\<lambda>c. c \<noteq> CHR ''\<newline>'') rest)"
    and "args_load (json_loads E) args_str"
  shows "fst (parse_llm_response E self (m @ ws @ tool_name @ ''('' @ args_str @ '')'' @ rest)) =
           Inr (Action tool_name (spec_action_args (json_loads E) args_str))"
proof -
  let ?tail = "ws @ tool_name @ ''('' @ args_str @ '')'' @ rest"
  have len: "length m = 7"
    using arg_cong [OF assms(1), of length] by (simp add: lower_def)
  then have ne: "m \<noteq> []" by auto
  have "lower_chr (hd m) = CHR ''a''"
    using arg_cong [OF assms(1), of hd] ne by (simp add: lower_def hd_map)
  then have h: "\<not> isspace (hd m)"
    using not_space_lower [of "hd m"] by (simp add: isspace_def)
  have "lower_chr (last m) = CHR '':''"
    using arg_cong [OF assms(1), of last] ne by (simp add: lower_def last_map)
  then have l: "\<not> isspace (last m)"
    using not_space_lower [of "last m"] by (simp add: isspace_def)
  from strip_keeps_prefix [OF ne h l] obtain u where u: "strip (m @ ?tail) = m @ u" by blast
  have "lower (m @ u) = lower m @ lower u"
    by (simp add: lower_def)
  with assms(1) u have low: "lower (strip (m @ ?tail)) = ''action:'' @ lower u"
    by simp
  have re: "rmatch action_re (m @ ?tail) = Some [tool_name, args_str]"
    using action_re_shape [OF assms(1-6)] .
  from assms(7) have whole: "\<not> loads_raises (json_loads E) (''{'' @ args_str @ ''}'')"
    and pieces: "list_all (\<lambda>p. CHR ''='' \<in> set p \<longrightarrow>
        \<not> loads_raises (json_loads E) (strip (drop 1 (dropWhile (\<lambda>x. x \<noteq> CHR ''='') p))))
        (split_chr (CHR '','') args_str)"
    by (simp_all add: args_load_def)
  note kv = key_value_args_pairs [OF pieces, of "[]"]
  from low re whole show ?thesis
    by (simp add: parse_llm_response_def Let_def startswith_def spec_action_args_def
        loads_raises_def kv split: loads_result.splits)
qed

text \<open>
  C5 at the inputs that break it. The scenario of the claim after one blank: the
  response begins with the marker once it is stripped, which is what the interpreter
  tests, but the pattern is matched against the response as received, where the marker
  is not at the start, and the result is an error, "Invalid Action format", not the
  tool name and its arguments. The same error is the result for arguments that span
  two lines, the pattern's \<open>.\<close> matching no newline. Without the blank, and on one line,
  the scenario gives the tool \<open>sql_query\<close> and the arguments \<open>{query: "SELECT 1"}\<close>.
\<close>

theorem action_after_blank:
  "fst (parse_llm_response (world busy_service) sample_agent
          '' Action: sql_query(query='SELECT 1')'') =
     Inr (Invalid ''Invalid Action format:  Action: sql_query(query='SELECT 1')'')
   \<and> fst (parse_llm_response (world busy_service) sample_agent
            ''Action: sql_query(query='SELECT 1\<newline>FROM call_records')'') =
       Inr (Invalid
         ''Invalid Action format: Action: sql_query(query='SELECT 1\<newline>FROM call_records')'')
   \<and> fst (parse_llm_response (world busy_service) sample_agent
            ''Action: sql_query(query='SELECT 1')'') =
       Inr (Action ''sql_query'' (JObject [(''query'', JString ''SELECT 1'')]))"
proof -
  let ?E = "world busy_service"
  have 1: "fst (parse_llm_response ?E sample_agent '' Action: sql_query(query='SELECT 1')'') =
      Inr (Invalid ''Invalid Action format:  Action: sql_query(query='SELECT 1')'')"
    by code_simp
  have 2: "fst (parse_llm_response ?E sample_agent
            ''Action: sql_query(query='SELECT 1\<newline>FROM call_records')'') =
       Inr (Invalid
         ''Invalid Action format: Action: sql_query(query='SELECT 1\<newline>FROM call_records')'')"
    by code_simp
  have 3: "fst (parse_llm_response ?E sample_agent ''Action: sql_query(query='SELECT 1')'') =
       Inr (Action ''sql_query'' (JObject [(''query'', JString ''SELECT 1'')]))"
    by code_simp
  from 1 2 3 show ?thesis by simp
qed

end
